theory Spec2Isabelle
  imports Complex_Main "HOL-Library.Log_Nat"
begin

section \<open>Arrays\<close>

text \<open>
  The engine works on numpy arrays that share one grid; every stage is pixel-wise, so a
  raster is modelled by the list of its pixels in row-major order. A float value is the
  real number it stands for. The engine is modelled twice: with exact real arithmetic
  (\<open>normalize_array\<close>, \<open>weighted_overlay\<close>, \<open>process_mcda_job\<close>), and with the result
  of every arithmetic operation rounded as numpy rounds it (\<open>normalize_array_f64\<close>,
  \<open>weighted_overlay_f32\<close>, \<open>final_map_f32\<close>). NaN and infinities in the arrays are outside
  both models. A boolean raster is a list of booleans.

  A JSON object (a Python dict) is an association list in insertion order; its keys are
  distinct.
\<close>

type_synonym array = "real list"

type_synonym 'v dict = "(string \<times> 'v) list"

definition has_key :: "string \<Rightarrow> 'v dict \<Rightarrow> bool" where
  "has_key k d = (k \<in> set (map fst d))"

definition nodata_val :: real where
  "nodata_val = - 9999"

section \<open>Normalizer (mcda\_engine.normalize\_array)\<close>

text \<open>
  \<^verbatim>\<open>np.clip(a, a_min, a_max)\<close> is \<^verbatim>\<open>minimum(a_max, maximum(a, a_min))\<close>.
\<close>

definition clip :: "real \<Rightarrow> real \<Rightarrow> real \<Rightarrow> real" where
  "clip a a_min a_max = min a_max (max a a_min)"

text \<open>
  \<^verbatim>\<open>
  arr = arr.astype(float)
  arr = np.clip(arr, min_val, max_val)
  norm_arr = (arr - min_val) / (max_val - min_val)
  if invert:
      norm_arr = 1 - norm_arr
  return norm_arr * 100
  \<close>
  The function does not look at any no-data sentinel. With \<open>max_val = min_val\<close> numpy
  divides a non-empty array by zero and fills it with NaN; that result is not a real array
  and the model returns \<open>None\<close> for it.
\<close>

definition normalize_array :: "array \<Rightarrow> real \<Rightarrow> real \<Rightarrow> bool \<Rightarrow> array option" where
  "normalize_array arr min_val max_val invert =
     (if max_val - min_val = 0 \<and> arr \<noteq> [] then None
      else Some (map (\<lambda>a.
             let c = clip a min_val max_val;
                 norm = (c - min_val) / (max_val - min_val);
                 norm' = (if invert then 1 - norm else norm)
             in norm' * 100) arr))"

section \<open>IEEE rounding\<close>

text \<open>
  numpy computes in IEEE binary floating point: float64 has a 53-bit significand, float32
  a 24-bit one, and every operation returns the exact result rounded to the nearest
  representable value, ties to the even significand. \<open>fl p\<close> is that rounding for a
  \<open>p\<close>-bit significand. The exponent is not bounded here: overflow to infinity and
  subnormal numbers are outside the model. \<open>ilog2 x\<close> is the exponent of the binade of
  \<open>x > 0\<close> (the integer \<open>k\<close> with \<open>2^k \<le> x < 2^(k+1)\<close>), computed from bit lengths.
\<close>

definition ilog2 :: "real \<Rightarrow> int" where
  "ilog2 x = (if 1 \<le> x then bitlen \<lfloor>x\<rfloor> - 1 else - bitlen (\<lceil>1 / x\<rceil> - 1))"

definition round_half_even :: "real \<Rightarrow> int" where
  "round_half_even s =
     (let f = \<lfloor>s\<rfloor>; r = s - of_int f
      in if r < 1 / 2 then f else if r > 1 / 2 then f + 1 else if even f then f else f + 1)"

definition fl :: "nat \<Rightarrow> real \<Rightarrow> real" where
  "fl p x =
     (if x = 0 then 0
      else let e = ilog2 \<bar>x\<bar> - int p + 1
           in of_int (round_half_even (x / 2 powi e)) * 2 powi e)"

definition f64 :: "real \<Rightarrow> real" where
  "f64 = fl 53"

definition f32 :: "real \<Rightarrow> real" where
  "f32 = fl 24"

section \<open>The Normalizer in float64\<close>

text \<open>
  \<open>normalize_array\<close> with numpy's arithmetic: \<^verbatim>\<open>astype(float)\<close> makes the array float64,
  \<^verbatim>\<open>np.clip\<close> selects a value and does not round, and the subtraction, the division,
  \<^verbatim>\<open>1 - norm_arr\<close> and the product with 100 each round to float64. The array values and
  the bounds are float64 values; \<^verbatim>\<open>max_val - min_val\<close> is Python scalar arithmetic, exact
  for the engine's integer bounds.
\<close>

definition normalize_array_f64 :: "array \<Rightarrow> real \<Rightarrow> real \<Rightarrow> bool \<Rightarrow> array option" where
  "normalize_array_f64 arr min_val max_val invert =
     (if f64 (max_val - min_val) = 0 \<and> arr \<noteq> [] then None
      else Some (map (\<lambda>a.
             let c = clip a min_val max_val;
                 norm = f64 (f64 (c - min_val) / f64 (max_val - min_val));
                 norm' = (if invert then f64 (1 - norm) else norm)
             in f64 (norm' * 100)) arr))"

text \<open>The Normalizer applied twice with bounds \<open>(0, 100)\<close> and \<open>invert = False\<close>.\<close>

definition normalize_twice_f64 :: "array \<Rightarrow> array option" where
  "normalize_twice_f64 xs =
     Option.bind (normalize_array_f64 xs 0 100 False) (\<lambda>ys. normalize_array_f64 ys 0 100 False)"

section \<open>Job records (models/project.py, api/schemas/analysis.py)\<close>

datatype JobStatus = PENDING | RUNNING | COMPLETE | FAILED

text \<open>
  \<open>constraints_json\<close> is a JSON object. The engine reads three keys of it and ignores every
  other key; a key that is absent is \<open>None\<close> here. The values have the types of the schema's
  example: a number for the two thresholds, a list of land-cover codes for \<open>lulc_exclude\<close>.
\<close>

record constraints =
  slope_gt :: "real option"
  lulc_exclude :: "real list option"
  grid_dist_gt :: "real option"

text \<open>
  A Python float as the admission path receives it in \<open>weights_json\<close>: a finite value,
  an infinity or NaN (the schema types the values as \<^verbatim>\<open>float\<close> and puts no bound on
  them). Finite arithmetic is exact here: rounding and overflow are not modelled.
  \<open>py_add\<close>, \<open>py_abs\<close> and \<open>py_gt\<close> are \<^verbatim>\<open>+\<close>, \<^verbatim>\<open>abs\<close> and \<^verbatim>\<open>>\<close>;
  every comparison with NaN is false.
\<close>

datatype pyfloat = Finite real | PosInf | NegInf | NaN

fun py_add :: "pyfloat \<Rightarrow> pyfloat \<Rightarrow> pyfloat" where
  "py_add (Finite a) (Finite b) = Finite (a + b)"
| "py_add NaN y = NaN"
| "py_add x NaN = NaN"
| "py_add PosInf NegInf = NaN"
| "py_add NegInf PosInf = NaN"
| "py_add PosInf y = PosInf"
| "py_add x PosInf = PosInf"
| "py_add NegInf y = NegInf"
| "py_add x NegInf = NegInf"

fun py_abs :: "pyfloat \<Rightarrow> pyfloat" where
  "py_abs (Finite a) = Finite \<bar>a\<bar>"
| "py_abs PosInf = PosInf"
| "py_abs NegInf = PosInf"
| "py_abs NaN = NaN"

fun py_gt :: "pyfloat \<Rightarrow> pyfloat \<Rightarrow> bool" where
  "py_gt (Finite a) (Finite b) = (a > b)"
| "py_gt NaN y = False"
| "py_gt x NaN = False"
| "py_gt PosInf PosInf = False"
| "py_gt PosInf y = True"
| "py_gt x PosInf = False"
| "py_gt NegInf y = False"
| "py_gt x NegInf = True"

text \<open>\<^verbatim>\<open>sum(values)\<close>: a left fold of \<^verbatim>\<open>+\<close> that starts at 0.\<close>

definition py_sum :: "pyfloat list \<Rightarrow> pyfloat" where
  "py_sum vs = foldl py_add (Finite 0) vs"

text \<open>
  The exceptions of the modelled code. The first two are the \<^verbatim>\<open>ValueError\<close>s the
  repository raises itself (with the value their message prints); \<open>Broadcast\<close> is numpy's
  \<^verbatim>\<open>ValueError\<close> for operands of different shapes; \<open>NonFinite\<close> stands for an array
  holding NaN, which the model cannot carry on with.
\<close>

datatype error =
    AoiNotFound int
  | WeightsSum pyfloat
  | Broadcast
  | NonFinite

record suitability_stats =
  total_pixels :: nat
  valid_pixels :: nat
  excluded_pixels :: nat
  mean_suitability :: real
  max_suitability :: real
  min_suitability :: real
  std_suitability :: real

text \<open>
  \<open>AnalysisJobCreate\<close> is the request body; \<open>AnalysisJob\<close> is the row of table
  \<open>analysis_jobs\<close>, which carries the same two JSON columns (written here as an extension
  of the request record, so that both share the field names of the source).
  \<open>error_log\<close> holds \<^verbatim>\<open>str(e)\<close>, kept as the error itself. The columns
  \<open>started_at\<close> and \<open>completed_at\<close> are never written by the code and are left out.
  The records are polymorphic in the type of the weights: the admission path handles them
  as Python floats (\<open>pyfloat\<close>, NaN and infinities included, since its check is a float
  comparison); the engine's arithmetic is modelled for finite weights, which are real
  numbers.
\<close>

record 'w AnalysisJobCreate =
  weights_json :: "'w dict"
  constraints_json :: constraints

record 'w AnalysisJob = "'w AnalysisJobCreate" +
  job_id :: int
  project_id :: int
  aoi_id :: int
  status :: JobStatus
  result_url :: "string option"
  result_tiles_url :: "string option"
  error_log :: "error option"
  stats_json :: "suitability_stats option"

type_synonym 'w job_table = "int \<rightharpoonup> 'w AnalysisJob"

section \<open>The MCDA engine (mcda\_engine.process\_mcda\_job)\<close>

text \<open>
  The windows that \<^verbatim>\<open>clip_raster_to_aoi\<close> returns for one AOI, and the slope that
  richdem derives from the DEM window. Both are results of external libraries and are
  inputs of the model.
\<close>

record layers =
  ghi_data :: array
  slope_data :: array
  grid_dist_data :: array
  road_dist_data :: array
  lulc_data :: array

text \<open>
  The environment of the engine: for every AOI of the metadata store the layers clipped to
  it (an AOI that is not in the store has none), and the name of the results bucket.
  Every AOI of the store carries its area, as \<^verbatim>\<open>create_or_update_aoi\<close> always sets it,
  and the reads from the data lake, the upload of the result and the commits are taken to
  succeed: their failures are outside the model.
\<close>

record env =
  aoi_layers :: "int \<rightharpoonup> layers"
  S3_RESULTS_BUCKET :: string

definition bind_err :: "error + 'a \<Rightarrow> ('a \<Rightarrow> error + 'b) \<Rightarrow> error + 'b" where
  "bind_err r f = (case r of Inl e \<Rightarrow> Inl e | Inr x \<Rightarrow> f x)"

text \<open>
  \<^verbatim>\<open>constraint_mask |= b\<close>: numpy raises when \<open>b\<close> has another shape than the mask
  (broadcasting of an axis of size one is not modelled).
\<close>

definition mask_or :: "bool list \<Rightarrow> bool list \<Rightarrow> error + bool list" where
  "mask_or m b = (if length b = length m then Inr (map2 (\<or>) m b) else Inl Broadcast)"

text \<open>
  Step 4:
  \<^verbatim>\<open>
  constraint_mask = np.zeros(ghi_data.shape, dtype=bool)
  if "slope_gt" in constraints:
      constraint_mask |= (slope_data > constraints["slope_gt"])
  if "lulc_exclude" in constraints:
      constraint_mask |= np.isin(lulc_data, constraints["lulc_exclude"])
  if "grid_dist_gt" in constraints:
      constraint_mask |= (grid_dist_data > constraints["grid_dist_gt"])
  \<close>
\<close>

definition constraint_mask :: "layers \<Rightarrow> constraints \<Rightarrow> error + bool list" where
  "constraint_mask L C =
     bind_err (case slope_gt C of
                 None \<Rightarrow> Inr (replicate (length (ghi_data L)) False)
               | Some v \<Rightarrow> mask_or (replicate (length (ghi_data L)) False)
                             (map (\<lambda>s. s > v) (slope_data L))) (\<lambda>m1.
     bind_err (case lulc_exclude C of
                 None \<Rightarrow> Inr m1
               | Some cs \<Rightarrow> mask_or m1 (map (\<lambda>c. c \<in> set cs) (lulc_data L))) (\<lambda>m2.
     (case grid_dist_gt C of
        None \<Rightarrow> Inr m2
      | Some v \<Rightarrow> mask_or m2 (map (\<lambda>d. d > v) (grid_dist_data L)))))"

text \<open>
  Step 5: one entry of \<open>normalized_layers\<close>,
  \<^verbatim>\<open>if name in weights: normalized_layers[name] = normalize_array(arr, lo, hi, invert=inv)\<close>.
\<close>

definition put_normalized ::
  "real dict \<Rightarrow> string \<Rightarrow> array \<Rightarrow> real \<Rightarrow> real \<Rightarrow> bool \<Rightarrow> (string \<rightharpoonup> array) \<Rightarrow>
   error + (string \<rightharpoonup> array)" where
  "put_normalized weights name arr lo hi invert nl =
     (if has_key name weights then
        (case normalize_array arr lo hi invert of
           None \<Rightarrow> Inl NonFinite
         | Some a \<Rightarrow> Inr (nl(name \<mapsto> a)))
      else Inr nl)"

definition normalized_layers :: "layers \<Rightarrow> real dict \<Rightarrow> error + (string \<rightharpoonup> array)" where
  "normalized_layers L weights =
     bind_err (put_normalized weights ''ghi'' (ghi_data L) 1000 2500 False Map.empty) (\<lambda>nl1.
     bind_err (put_normalized weights ''slope'' (slope_data L) 0 10 True nl1) (\<lambda>nl2.
     bind_err (put_normalized weights ''grid_dist'' (grid_dist_data L) 0 10000 True nl2) (\<lambda>nl3.
     put_normalized weights ''road_dist'' (road_dist_data L) 0 5000 True nl3)))"

text \<open>
  Step 6:
  \<^verbatim>\<open>
  for layer_name, weight in weights.items():
      if layer_name in normalized_layers:
          final_map += normalized_layers[layer_name] * (weight / 100.0)
  \<close>
\<close>

fun weighted_overlay :: "(string \<rightharpoonup> array) \<Rightarrow> real dict \<Rightarrow> array \<Rightarrow> error + array" where
  "weighted_overlay nl [] final_map = Inr final_map"
| "weighted_overlay nl ((layer_name, weight) # rest) final_map =
     (case nl layer_name of
        None \<Rightarrow> weighted_overlay nl rest final_map
      | Some a \<Rightarrow>
          if length a = length final_map
          then weighted_overlay nl rest (map2 (+) final_map (map (\<lambda>x. x * (weight / 100)) a))
          else Inl Broadcast)"

text \<open>Step 7: \<^verbatim>\<open>final_map[constraint_mask] = nodata_val\<close>.\<close>

definition apply_constraints :: "array \<Rightarrow> bool list \<Rightarrow> array" where
  "apply_constraints final_map m = map2 (\<lambda>x b. if b then nodata_val else x) final_map m"

text \<open>Step 9. \<^verbatim>\<open>np.std\<close> is the population standard deviation.\<close>

definition np_mean :: "array \<Rightarrow> real" where
  "np_mean xs = sum_list xs / real (length xs)"

definition np_std :: "array \<Rightarrow> real" where
  "np_std xs = sqrt (np_mean (map (\<lambda>x. \<bar>x - np_mean xs\<bar> ^ 2) xs))"

definition valid_data :: "array \<Rightarrow> array" where
  "valid_data final_map = filter (\<lambda>x. x \<noteq> nodata_val) final_map"

definition compute_statistics :: "array \<Rightarrow> array \<Rightarrow> bool list \<Rightarrow> suitability_stats" where
  "compute_statistics ghi final_map m =
     (let v = valid_data final_map in
      \<lparr> total_pixels = length ghi,
        valid_pixels = length v,
        excluded_pixels = length (filter (\<lambda>b. b) m),
        mean_suitability = (if length v > 0 then np_mean v else 0),
        max_suitability = (if length v > 0 then Max (set v) else 0),
        min_suitability = (if length v > 0 then Min (set v) else 0),
        std_suitability = (if length v > 0 then np_std v else 0) \<rparr>)"

text \<open>Decimal rendering of the job id in the result key.\<close>

fun digits :: "nat \<Rightarrow> string" where
  "digits n = (if n < 10 then [char_of (48 + n)]
               else digits (n div 10) @ [char_of (48 + n mod 10)])"

declare digits.simps [simp del]

definition str_int :: "int \<Rightarrow> string" where
  "str_int i = (if i < 0 then CHR ''-'' # digits (nat (- i)) else digits (nat i))"

text \<open>
  The value the engine returns, together with the array it uploads under \<open>geotiff_url\<close>
  (field \<open>raster\<close>: the upload is the effect of the function that the claims are about).
\<close>

record mcda_result =
  geotiff_url :: string
  tiles_url :: "string option"
  statistics :: suitability_stats
  raster :: array

definition process_mcda_job :: "env \<Rightarrow> real AnalysisJob \<Rightarrow> error + mcda_result" where
  "process_mcda_job e job =
     (case aoi_layers e (aoi_id job) of
        None \<Rightarrow> Inl (AoiNotFound (aoi_id job))
      | Some L \<Rightarrow>
          bind_err (constraint_mask L (constraints_json job)) (\<lambda>m.
          bind_err (normalized_layers L (weights_json job)) (\<lambda>nl.
          bind_err (weighted_overlay nl (weights_json job)
                      (replicate (length (ghi_data L)) 0)) (\<lambda>summed.
            let final_map = apply_constraints summed m;
                result_filename = ''mcda_result_'' @ str_int (job_id job) @ ''.tif'';
                s3_key = ''results/'' @ result_filename;
                url = ''s3://'' @ S3_RESULTS_BUCKET e @ ''/'' @ s3_key
            in Inr \<lparr> geotiff_url = url,
                     tiles_url = None,
                     statistics = compute_statistics (ghi_data L) final_map m,
                     raster = final_map \<rparr>))))"

section \<open>The engine's array in float arithmetic\<close>

text \<open>
  Steps 4 to 7 of \<open>process_mcda_job\<close> with numpy's arithmetic. Step 5 uses the float64
  Normalizer. In step 6, \<^verbatim>\<open>weight / 100.0\<close> is a Python float division and the product
  with the normalized float64 array rounds to float64; \<open>final_map\<close> is a float32 array, so
  \<^verbatim>\<open>final_map += ...\<close> adds in float64 and stores the sum rounded to float32. Steps 4
  and 7 compare and assign values and do not round. \<open>final_map_f32\<close> is the array that step
  8 writes.
\<close>

definition put_normalized_f64 ::
  "real dict \<Rightarrow> string \<Rightarrow> array \<Rightarrow> real \<Rightarrow> real \<Rightarrow> bool \<Rightarrow> (string \<rightharpoonup> array) \<Rightarrow>
   error + (string \<rightharpoonup> array)" where
  "put_normalized_f64 weights name arr lo hi invert nl =
     (if has_key name weights then
        (case normalize_array_f64 arr lo hi invert of
           None \<Rightarrow> Inl NonFinite
         | Some a \<Rightarrow> Inr (nl(name \<mapsto> a)))
      else Inr nl)"

definition normalized_layers_f64 :: "layers \<Rightarrow> real dict \<Rightarrow> error + (string \<rightharpoonup> array)" where
  "normalized_layers_f64 L weights =
     bind_err (put_normalized_f64 weights ''ghi'' (ghi_data L) 1000 2500 False Map.empty) (\<lambda>nl1.
     bind_err (put_normalized_f64 weights ''slope'' (slope_data L) 0 10 True nl1) (\<lambda>nl2.
     bind_err (put_normalized_f64 weights ''grid_dist'' (grid_dist_data L) 0 10000 True nl2) (\<lambda>nl3.
     put_normalized_f64 weights ''road_dist'' (road_dist_data L) 0 5000 True nl3)))"

fun weighted_overlay_f32 :: "(string \<rightharpoonup> array) \<Rightarrow> real dict \<Rightarrow> array \<Rightarrow> error + array" where
  "weighted_overlay_f32 nl [] final_map = Inr final_map"
| "weighted_overlay_f32 nl ((layer_name, weight) # rest) final_map =
     (case nl layer_name of
        None \<Rightarrow> weighted_overlay_f32 nl rest final_map
      | Some a \<Rightarrow>
          if length a = length final_map
          then weighted_overlay_f32 nl rest
                 (map2 (\<lambda>s x. f32 (f64 (s + f64 (x * f64 (weight / 100))))) final_map a)
          else Inl Broadcast)"

definition final_map_f32 :: "layers \<Rightarrow> real AnalysisJob \<Rightarrow> error + array" where
  "final_map_f32 L job =
     bind_err (constraint_mask L (constraints_json job)) (\<lambda>m.
     bind_err (normalized_layers_f64 L (weights_json job)) (\<lambda>nl.
     bind_err (weighted_overlay_f32 nl (weights_json job)
                 (replicate (length (ghi_data L)) 0)) (\<lambda>summed.
       Inr (apply_constraints summed m))))"

section \<open>The worker task (workers/tasks.run\_mcda\_analysis)\<close>

datatype task_outcome = Returned | Raised error

text \<open>
  \<^verbatim>\<open>
  job = db.query(AnalysisJob).filter(AnalysisJob.id == job_id).first()
  if not job:
      return
  try:
      job.status = JobStatus.RUNNING
      db.commit()
      result = process_mcda_job(db, job)
      job.status = JobStatus.COMPLETE
      job.result_url = result["geotiff_url"]
      job.result_tiles_url = result["tiles_url"]
      job.stats_json = result["statistics"]
      db.commit()
  except Exception as e:
      job.status = JobStatus.FAILED
      job.error_log = str(e)
      db.commit()
      raise
  \<close>
  The model returns the table as it stands after each commit, in order, and how the task
  ended.
\<close>

definition run_mcda_analysis ::
  "env \<Rightarrow> real job_table \<Rightarrow> int \<Rightarrow> real job_table list \<times> task_outcome" where
  "run_mcda_analysis e db jid =
     (case db jid of
        None \<Rightarrow> ([], Returned)
      | Some job \<Rightarrow>
          let job1 = job\<lparr>status := RUNNING\<rparr>;
              db1 = db(jid \<mapsto> job1)
          in (case process_mcda_job e job1 of
                Inr result \<Rightarrow>
                  let job2 = job1\<lparr>status := COMPLETE,
                                  result_url := Some (geotiff_url result),
                                  result_tiles_url := tiles_url result,
                                  stats_json := Some (statistics result)\<rparr>
                  in ([db1, db1(jid \<mapsto> job2)], Returned)
              | Inl err \<Rightarrow>
                  let job2 = job1\<lparr>status := FAILED, error_log := Some err\<rparr>
                  in ([db1, db1(jid \<mapsto> job2)], Raised err)))"

section \<open>Admission (api/services/analysis\_service.create\_and\_queue\_job)\<close>

text \<open>
  The metadata store as the admission path sees it: the table \<open>analysis_jobs\<close>, the next
  value of its primary-key sequence, and the broker queue that
  \<^verbatim>\<open>run_mcda_analysis.delay\<close> appends to.
\<close>

record store =
  analysis_jobs :: "pyfloat job_table"
  next_job_id :: int
  queue :: "int list"

text \<open>
  \<^verbatim>\<open>
  total_weight = sum(data.weights_json.values())
  if abs(total_weight - 100) > 0.01:
      raise ValueError(f"Weights must sum to 100, got {total_weight}")
  job = AnalysisJob(project_id=project_id, aoi_id=aoi_id, status=JobStatus.PENDING,
                    weights_json=data.weights_json, constraints_json=data.constraints_json)
  db.add(job); db.commit(); db.refresh(job)
  run_mcda_analysis.delay(job.id)
  return job
  \<close>
\<close>

definition create_and_queue_job ::
  "store \<Rightarrow> int \<Rightarrow> int \<Rightarrow> pyfloat AnalysisJobCreate \<Rightarrow>
   (error + pyfloat AnalysisJob) \<times> store" where
  "create_and_queue_job st pid aid data =
     (let total_weight = py_sum (map snd (weights_json data)) in
      if py_gt (py_abs (py_add total_weight (Finite (- 100)))) (Finite (1 / 100))
      then (Inl (WeightsSum total_weight), st)
      else
        let job = \<lparr> weights_json = weights_json data,
                    constraints_json = constraints_json data,
                    job_id = next_job_id st,
                    project_id = pid,
                    aoi_id = aid,
                    status = PENDING,
                    result_url = None,
                    result_tiles_url = None,
                    error_log = None,
                    stats_json = None \<rparr>
        in (Inr job,
            st\<lparr> analysis_jobs := (analysis_jobs st)(next_job_id st \<mapsto> job),
                next_job_id := next_job_id st + 1,
                queue := queue st @ [job_id job] \<rparr>))"

section \<open>Notions used in the statements\<close>

text \<open>All windows of a job lie on the grid of the primary (GHI) layer: they have its shape.\<close>

definition common_grid :: "layers \<Rightarrow> bool" where
  "common_grid L =
     (length (slope_data L) = length (ghi_data L) \<and>
      length (grid_dist_data L) = length (ghi_data L) \<and>
      length (road_dist_data L) = length (ghi_data L) \<and>
      length (lulc_data L) = length (ghi_data L))"

text \<open>The factor names the engine normalizes (the keys it tests \<open>weights\<close> for in step 5).\<close>

definition recognized_factors :: "string set" where
  "recognized_factors = {''ghi'', ''slope'', ''grid_dist'', ''road_dist''}"

text \<open>The status of one job in each committed table, in commit order.\<close>

definition status_trace :: "'w job_table list \<Rightarrow> int \<Rightarrow> JobStatus option list" where
  "status_trace commits jid = map (\<lambda>t. map_option status (t jid)) commits"

text \<open>The pixel-wise predicate that the three constraint tests of step 4 compute.\<close>

definition excluded_at :: "layers \<Rightarrow> constraints \<Rightarrow> nat \<Rightarrow> bool" where
  "excluded_at L C i =
     ((case slope_gt C of None \<Rightarrow> False | Some v \<Rightarrow> slope_data L ! i > v) \<or>
      (case lulc_exclude C of None \<Rightarrow> False | Some cs \<Rightarrow> lulc_data L ! i \<in> set cs) \<or>
      (case grid_dist_gt C of None \<Rightarrow> False | Some v \<Rightarrow> grid_dist_data L ! i > v))"

text \<open>The normalized array of each factor name of step 5, with its clip bounds and invert flag.\<close>

definition factor_layer :: "layers \<Rightarrow> string \<Rightarrow> array option" where
  "factor_layer L k =
     (if k = ''ghi'' then normalize_array (ghi_data L) 1000 2500 False
      else if k = ''slope'' then normalize_array (slope_data L) 0 10 True
      else if k = ''grid_dist'' then normalize_array (grid_dist_data L) 0 10000 True
      else if k = ''road_dist'' then normalize_array (road_dist_data L) 0 5000 True
      else None)"

text \<open>The dict \<open>normalized_layers\<close> of a job, as a function of the layers and the weights.\<close>

definition job_layers :: "layers \<Rightarrow> real dict \<Rightarrow> (string \<rightharpoonup> array)" where
  "job_layers L ws = (\<lambda>k. if has_key k ws then factor_layer L k else None)"

text \<open>The sum that the loop of step 6 adds up at pixel \<open>i\<close>, in the order of \<open>weights.items()\<close>.\<close>

definition overlay_sum :: "(string \<rightharpoonup> array) \<Rightarrow> real dict \<Rightarrow> nat \<Rightarrow> real" where
  "overlay_sum nl ws i =
     sum_list (map (\<lambda>(k, w). case nl k of None \<Rightarrow> 0 | Some a \<Rightarrow> a ! i * (w / 100)) ws)"

text \<open>The array that steps 6 and 7 produce, pixel by pixel.\<close>

definition expected_raster :: "layers \<Rightarrow> real AnalysisJob \<Rightarrow> array" where
  "expected_raster L job =
     map (\<lambda>i. if excluded_at L (constraints_json job) i then nodata_val
              else overlay_sum (job_layers L (weights_json job)) (weights_json job) i)
         [0..<length (ghi_data L)]"

text \<open>The float64 counterparts of \<open>factor_layer\<close> and \<open>job_layers\<close>.\<close>

definition factor_layer_f64 :: "layers \<Rightarrow> string \<Rightarrow> array option" where
  "factor_layer_f64 L k =
     (if k = ''ghi'' then normalize_array_f64 (ghi_data L) 1000 2500 False
      else if k = ''slope'' then normalize_array_f64 (slope_data L) 0 10 True
      else if k = ''grid_dist'' then normalize_array_f64 (grid_dist_data L) 0 10000 True
      else if k = ''road_dist'' then normalize_array_f64 (road_dist_data L) 0 5000 True
      else None)"

definition job_layers_f64 :: "layers \<Rightarrow> real dict \<Rightarrow> (string \<rightharpoonup> array)" where
  "job_layers_f64 L ws = (\<lambda>k. if has_key k ws then factor_layer_f64 L k else None)"

text \<open>
  The total weight and the number of the entries of the weights that name a normalized
  layer, and the factors by which rounding can enlarge one product (\<open>q64\<close>: two float64
  roundings) and one accumulation (\<open>r32\<close>: a float64 and a float32 rounding).
\<close>

definition recognized_weight :: "(string \<rightharpoonup> array) \<Rightarrow> real dict \<Rightarrow> real" where
  "recognized_weight nl ws = sum_list (map snd (filter (\<lambda>p. nl (fst p) \<noteq> None) ws))"

definition recognized_count :: "(string \<rightharpoonup> array) \<Rightarrow> real dict \<Rightarrow> nat" where
  "recognized_count nl ws = length (filter (\<lambda>p. nl (fst p) \<noteq> None) ws)"

definition q64 :: real where
  "q64 = (1 + 1 / 9007199254740992) ^ 2"

definition r32 :: real where
  "r32 = (1 + 1 / 9007199254740992) * (1 + 1 / 16777216)"

section \<open>Sample inputs\<close>

text \<open>
  A grid of three pixels. Pixel 0 holds the no-data sentinel in the GHI and slope windows,
  pixel 1 is flat and sunny, pixel 2 has a slope of 15 degrees. The job is the one of the
  schema's example; \<open>short_request\<close> has weights that sum to 99, \<open>wind_request\<close> puts
  weight on a name the engine does not know, \<open>nan_request\<close> has the single weight NaN,
  and \<open>finished_table\<close> holds the job after it has completed; \<open>slope_only\<close> declares the
  slope threshold alone, and \<open>empty_env\<close> is a store without any AOI.
\<close>

definition sample_layers :: layers where
  "sample_layers =
     \<lparr> ghi_data = [- 9999, 2500, 2500],
       slope_data = [- 9999, 0, 15],
       grid_dist_data = [0, 0, 0],
       road_dist_data = [0, 0, 0],
       lulc_data = [30, 30, 30] \<rparr>"

definition sample_env :: env where
  "sample_env = \<lparr> aoi_layers = [3 \<mapsto> sample_layers], S3_RESULTS_BUCKET = ''results'' \<rparr>"

definition sample_constraints :: constraints where
  "sample_constraints =
     \<lparr> slope_gt = Some 10, lulc_exclude = Some [50, 80], grid_dist_gt = Some 10000 \<rparr>"

definition sample_weights :: "real dict" where
  "sample_weights = [(''ghi'', 40), (''slope'', 25), (''grid_dist'', 20), (''road_dist'', 15)]"

definition sample_job :: "real AnalysisJob" where
  "sample_job =
     \<lparr> weights_json = sample_weights,
       constraints_json = sample_constraints,
       job_id = 7, project_id = 1, aoi_id = 3, status = PENDING,
       result_url = None, result_tiles_url = None, error_log = None, stats_json = None \<rparr>"

definition slope_only :: constraints where
  "slope_only = \<lparr> slope_gt = Some 10, lulc_exclude = None, grid_dist_gt = None \<rparr>"

definition finished_table :: "real job_table" where
  "finished_table = [7 \<mapsto> sample_job\<lparr>status := COMPLETE\<rparr>]"

definition sample_store :: store where
  "sample_store = \<lparr> analysis_jobs = Map.empty, next_job_id = 1, queue = [] \<rparr>"

text \<open>A dict of finite weights as a dict of Python floats.\<close>

definition finite_dict :: "real dict \<Rightarrow> pyfloat dict" where
  "finite_dict ws = map (\<lambda>(k, w). (k, Finite w)) ws"

definition sample_request :: "pyfloat AnalysisJobCreate" where
  "sample_request =
     \<lparr> weights_json = finite_dict sample_weights, constraints_json = sample_constraints \<rparr>"

definition short_request :: "pyfloat AnalysisJobCreate" where
  "short_request =
     \<lparr> weights_json =
         finite_dict [(''ghi'', 40), (''slope'', 25), (''grid_dist'', 20), (''road_dist'', 14)],
       constraints_json = sample_constraints \<rparr>"


definition nan_request :: "pyfloat AnalysisJobCreate" where
  "nan_request =
     \<lparr> weights_json = [(''ghi'', NaN)], constraints_json = sample_constraints \<rparr>"

definition empty_env :: env where
  "empty_env = \<lparr> aoi_layers = Map.empty, S3_RESULTS_BUCKET = ''results'' \<rparr>"

text \<open>
  One pixel at which every factor has its best value, and a job without constraints whose
  weights on three factors are the float64 values of 33.4, 33.3 and 33.300000000000004;
  their exact sum is 100.
\<close>

definition best_layers :: layers where
  "best_layers =
     \<lparr> ghi_data = [2500], slope_data = [0], grid_dist_data = [0], road_dist_data = [0],
       lulc_data = [30] \<rparr>"

definition thirds_job :: "real AnalysisJob" where
  "thirds_job =
     \<lparr> weights_json =
         [(''ghi'', 4700632111067955 / 140737488355328),
          (''slope'', 2343279181116211 / 70368744177664),
          (''grid_dist'', 4686558362232423 / 140737488355328)],
       constraints_json = \<lparr> slope_gt = None, lulc_exclude = None, grid_dist_gt = None \<rparr>,
       job_id = 9, project_id = 1, aoi_id = 3, status = RUNNING,
       result_url = None, result_tiles_url = None, error_log = None, stats_json = None \<rparr>"

section \<open>Properties of the Normalizer\<close>





section \<open>Properties of the rounding\<close>

lemma ilog2_bounds:
  assumes "0 < x"
  shows "2 powi (ilog2 x) \<le> x \<and> x < 2 powi (ilog2 x + 1)"
proof (cases "1 \<le> x")
  case True
  let ?n = "\<lfloor>x\<rfloor>"
  have n: "0 < ?n" using True by simp
  have b1: "1 \<le> bitlen ?n" using n by (simp add: bitlen_alt_def)
  from bitlen_bounds [OF n] have lo: "2 ^ nat (bitlen ?n - 1) \<le> ?n" and hi: "?n < 2 ^ nat (bitlen ?n)"
    by simp_all
  have "real_of_int (2 ^ nat (bitlen ?n - 1)) \<le> real_of_int ?n" using lo by linarith
  then have l: "(2::real) ^ nat (bitlen ?n - 1) \<le> x" by (simp add: le_floor_iff)
  have "?n + 1 \<le> 2 ^ nat (bitlen ?n)" using hi by simp
  then have "real_of_int (?n + 1) \<le> real_of_int (2 ^ nat (bitlen ?n))" by linarith
  then have up: "real_of_int ?n + 1 \<le> (2::real) ^ nat (bitlen ?n)" by simp
  have "x < real_of_int ?n + 1" by linarith
  then have h: "x < (2::real) ^ nat (bitlen ?n)" using up by linarith
  have e1: "(2::real) powi (bitlen ?n - 1) = 2 ^ nat (bitlen ?n - 1)"
    using b1 by (simp add: power_int_def)
  have e2: "(2::real) powi (bitlen ?n - 1 + 1) = 2 ^ nat (bitlen ?n)"
    using b1 by (simp add: power_int_def)
  show ?thesis using True l h e1 e2 by (simp add: ilog2_def)
next
  case False
  then have x1: "x < 1" by simp
  let ?y = "1 / x"
  let ?c = "\<lceil>?y\<rceil> - 1"
  have y1: "1 < ?y" using assms x1 by simp
  then have "2 \<le> \<lceil>?y\<rceil>" by (simp add: le_ceiling_iff)
  then have c: "0 < ?c" by simp
  have b1: "1 \<le> bitlen ?c" using c by (simp add: bitlen_alt_def)
  from bitlen_bounds [OF c] have lo: "2 ^ nat (bitlen ?c - 1) \<le> ?c" and hi: "?c < 2 ^ nat (bitlen ?c)"
    by simp_all
  have cy: "real_of_int ?c < ?y" by linarith
  have yc: "?y \<le> real_of_int (?c + 1)" by simp
  have "real_of_int (2 ^ nat (bitlen ?c - 1)) \<le> real_of_int ?c" using lo by linarith
  then have lo': "(2::real) ^ nat (bitlen ?c - 1) \<le> real_of_int ?c" by simp
  have l: "(2::real) ^ nat (bitlen ?c - 1) < ?y" using cy lo' by linarith
  have "?c + 1 \<le> 2 ^ nat (bitlen ?c)" using hi by simp
  then have "real_of_int (?c + 1) \<le> real_of_int (2 ^ nat (bitlen ?c))" by linarith
  then have up': "real_of_int (?c + 1) \<le> (2::real) ^ nat (bitlen ?c)" by simp
  have h: "?y \<le> (2::real) ^ nat (bitlen ?c)" using yc up' by linarith
  have up: "x < 1 / 2 ^ nat (bitlen ?c - 1)"
  proof -
    have "x * 2 ^ nat (bitlen ?c - 1) < x * ?y"
      using l assms by (intro mult_strict_left_mono) simp_all
    then have "x * 2 ^ nat (bitlen ?c - 1) < 1" using assms by simp
    then show ?thesis by (simp add: pos_less_divide_eq)
  qed
  have dn: "1 / 2 ^ nat (bitlen ?c) \<le> x"
  proof -
    have "x * ?y \<le> x * 2 ^ nat (bitlen ?c)"
      using h assms by (intro mult_left_mono) simp_all
    then have "1 \<le> x * 2 ^ nat (bitlen ?c)" using assms by simp
    then show ?thesis by (simp add: pos_divide_le_eq)
  qed
  have e1: "(2::real) powi (- bitlen ?c) = 1 / 2 ^ nat (bitlen ?c)"
    using b1 by (simp add: power_int_def field_simps)
  have e2: "(2::real) powi (- bitlen ?c + 1) = 1 / 2 ^ nat (bitlen ?c - 1)"
  proof (cases "bitlen ?c = 1")
    case True
    then show ?thesis by simp
  next
    case False
    then have "- bitlen ?c + 1 < 0" using b1 by simp
    then show ?thesis
      by (simp add: power_int_def field_simps)
  qed
  show ?thesis using False dn up e1 e2 by (simp add: ilog2_def)
qed

lemma round_half_even_error: "\<bar>real_of_int (round_half_even s) - s\<bar> \<le> 1 / 2"
  unfolding round_half_even_def Let_def by (auto; linarith)

lemma round_half_even_le: "s \<le> real_of_int M \<Longrightarrow> round_half_even s \<le> M"
proof -
  assume a: "s \<le> real_of_int M"
  have f: "\<lfloor>s\<rfloor> \<le> M" using a by (simp add: floor_le_iff)
  show ?thesis
  proof (cases "s = real_of_int \<lfloor>s\<rfloor>")
    case True
    then have "round_half_even s = \<lfloor>s\<rfloor>" by (simp add: round_half_even_def Let_def)
    then show ?thesis using f by simp
  next
    case False
    then have "real_of_int \<lfloor>s\<rfloor> < s" by linarith
    then have "real_of_int \<lfloor>s\<rfloor> < real_of_int M" using a by linarith
    then have "\<lfloor>s\<rfloor> + 1 \<le> M" by linarith
    moreover have "round_half_even s \<le> \<lfloor>s\<rfloor> + 1"
      by (simp add: round_half_even_def Let_def)
    ultimately show ?thesis by linarith
  qed
qed

lemma round_half_even_nonneg: "0 \<le> s \<Longrightarrow> 0 \<le> round_half_even s"
proof -
  assume "0 \<le> s"
  then have "0 \<le> \<lfloor>s\<rfloor>" by simp
  moreover have "\<lfloor>s\<rfloor> \<le> round_half_even s" by (simp add: round_half_even_def Let_def)
  ultimately show ?thesis by linarith
qed

lemma fl_nonneg: "0 \<le> x \<Longrightarrow> 0 \<le> fl p x"
  by (auto simp: fl_def Let_def intro!: mult_nonneg_nonneg round_half_even_nonneg divide_nonneg_pos)

lemma fl_error: "\<bar>fl p x - x\<bar> \<le> \<bar>x\<bar> * 2 powi (- int p)"
proof (cases "x = 0")
  case True
  then show ?thesis by (simp add: fl_def)
next
  case False
  define k where "k = ilog2 \<bar>x\<bar>"
  define e where "e = k - int p + 1"
  define s where "s = x / 2 powi e"
  define m where "m = round_half_even s"
  have pos: "(0::real) < 2 powi e" by simp
  have f: "fl p x = of_int m * 2 powi e"
    using False by (simp add: fl_def Let_def k_def e_def s_def m_def)
  have x: "x = s * 2 powi e" by (simp add: s_def)
  have "\<bar>fl p x - x\<bar> = \<bar>of_int m - s\<bar> * 2 powi e"
    by (subst f, subst x) (simp add: abs_mult flip: left_diff_distrib)
  also have "\<dots> \<le> (1 / 2) * 2 powi e"
    using round_half_even_error [of s] by (intro mult_right_mono) (simp_all add: m_def)
  also have "(1 / 2) * (2::real) powi e = 2 powi k * 2 powi (- int p)"
  proof -
    have "(2::real) powi e = 2 powi (k - int p) * 2"
      by (simp add: e_def power_int_add)
    moreover have "(2::real) powi (k - int p) = 2 powi k * 2 powi (- int p)"
      by (simp add: power_int_diff power_int_minus field_simps)
    ultimately show ?thesis by simp
  qed
  also have "\<dots> \<le> \<bar>x\<bar> * 2 powi (- int p)"
    using ilog2_bounds [of "\<bar>x\<bar>"] False by (intro mult_right_mono) (simp_all add: k_def)
  finally show ?thesis .
qed

lemma ilog2_mono:
  assumes "0 < x" "x \<le> y"
  shows "ilog2 x \<le> ilog2 y"
proof -
  have "(2::real) powi (ilog2 x) \<le> x" using ilog2_bounds [OF assms(1)] by simp
  also have "x \<le> y" by fact
  also have "y < 2 powi (ilog2 y + 1)" using ilog2_bounds [of y] assms by simp
  finally have lt: "(2::real) powi (ilog2 x) < 2 powi (ilog2 y + 1)" .
  have "ilog2 x < ilog2 y + 1"
  proof (rule ccontr)
    assume "\<not> ilog2 x < ilog2 y + 1"
    then have "ilog2 y + 1 \<le> ilog2 x" by simp
    then have "(2::real) powi (ilog2 y + 1) \<le> 2 powi (ilog2 x)"
      by (intro power_int_increasing) simp_all
    with lt show False by simp
  qed
  then show ?thesis by simp
qed

lemma fl_le:
  assumes x: "0 \<le> x" and xy: "x \<le> y" and rep: "fl p y = y"
  shows "fl p x \<le> y"
proof (cases "x = 0")
  case True
  then show ?thesis using x xy by (simp add: fl_def)
next
  case False
  then have x0: "0 < x" using x by simp
  then have y0: "0 < y" using xy by simp
  define ex where "ex = ilog2 \<bar>x\<bar> - int p + 1"
  define ey where "ey = ilog2 \<bar>y\<bar> - int p + 1"
  define my where "my = round_half_even (y / 2 powi ey)"
  have yrep: "y = of_int my * 2 powi ey"
    using rep y0 by (simp add: fl_def Let_def ey_def my_def)
  have le: "ex \<le> ey" using ilog2_mono [OF x0 xy] x0 y0 by (simp add: ex_def ey_def)
  define d where "d = nat (ey - ex)"
  have ey: "ey = ex + int d" using le by (simp add: d_def)
  have ysc: "y / 2 powi ex = of_int (my * 2 ^ d)"
  proof -
    have "(2::real) powi ey = 2 powi ex * 2 ^ d" by (simp add: ey power_int_add)
    then have "y = of_int my * 2 ^ d * 2 powi ex" using yrep by simp
    then show ?thesis by simp
  qed
  have "x / 2 powi ex \<le> y / 2 powi ex" using xy by (simp add: divide_right_mono)
  then have "x / 2 powi ex \<le> real_of_int (my * 2 ^ d)" using ysc by simp
  then have "round_half_even (x / 2 powi ex) \<le> my * 2 ^ d" by (rule round_half_even_le)
  then have "real_of_int (round_half_even (x / 2 powi ex)) \<le> real_of_int (my * 2 ^ d)"
    by linarith
  then have "real_of_int (round_half_even (x / 2 powi ex)) * 2 powi ex \<le> real_of_int (my * 2 ^ d) * 2 powi ex"
    by (intro mult_right_mono) simp_all
  also have "real_of_int (my * 2 ^ d) * 2 powi ex = y"
  proof -
    have "y / 2 powi ex * 2 powi ex = y" by simp
    then show ?thesis by (simp only: ysc)
  qed
  finally show ?thesis using False by (simp add: fl_def Let_def ex_def)
qed

lemma ilog2_eqI:
  assumes lo: "2 powi k \<le> x" and hi: "x < 2 powi (k + 1)"
  shows "ilog2 x = k"
proof -
  have x: "0 < x" using lo by (rule less_le_trans [rotated]) simp
  from ilog2_bounds [OF x] have l: "2 powi (ilog2 x) \<le> x" and h: "x < 2 powi (ilog2 x + 1)"
    by simp_all
  have a: "ilog2 x < k + 1"
  proof (rule ccontr)
    assume "\<not> ilog2 x < k + 1"
    then have "(2::real) powi (k + 1) \<le> 2 powi (ilog2 x)"
      by (intro power_int_increasing) simp_all
    with l hi show False by linarith
  qed
  have b: "k < ilog2 x + 1"
  proof (rule ccontr)
    assume "\<not> k < ilog2 x + 1"
    then have "(2::real) powi (ilog2 x + 1) \<le> 2 powi k"
      by (intro power_int_increasing) simp_all
    with lo h show False by linarith
  qed
  from a b show ?thesis by simp
qed

lemma round_half_even_eqI:
  assumes "\<bar>s - real_of_int m\<bar> < 1 / 2"
  shows "round_half_even s = m"
proof -
  have "\<lfloor>s\<rfloor> = m \<or> \<lfloor>s\<rfloor> = m - 1" using assms by linarith
  then show ?thesis
  proof
    assume f: "\<lfloor>s\<rfloor> = m"
    then have "s - real_of_int \<lfloor>s\<rfloor> < 1 / 2" using assms by linarith
    then show ?thesis using f by (simp add: round_half_even_def Let_def)
  next
    assume f: "\<lfloor>s\<rfloor> = m - 1"
    then have "s - real_of_int \<lfloor>s\<rfloor> > 1 / 2" using assms by linarith
    then show ?thesis using f by (simp add: round_half_even_def Let_def)
  qed
qed

lemma fl_eqI:
  assumes lo: "2 powi k \<le> \<bar>x\<bar>" and hi: "\<bar>x\<bar> < 2 powi (k + 1)"
    and m: "\<bar>x / 2 powi (k - int p + 1) - real_of_int m\<bar> < 1 / 2"
    and y: "y = real_of_int m * 2 powi (k - int p + 1)"
  shows "fl p x = y"
proof -
  have "0 < \<bar>x\<bar>" using lo by (rule less_le_trans [rotated]) simp
  then have x: "x \<noteq> 0" by simp
  have k: "ilog2 \<bar>x\<bar> = k" using lo hi by (rule ilog2_eqI)
  have "round_half_even (x / 2 powi (k - int p + 1)) = m" using m by (rule round_half_even_eqI)
  then show ?thesis using x k y by (simp add: fl_def Let_def)
qed

lemma fl_0: "fl p 0 = 0"
  by (simp add: fl_def)

lemma round_half_even_tieI:
  assumes "s = real_of_int f + 1 / 2"
  shows "round_half_even s = (if even f then f else f + 1)"
proof -
  have "\<lfloor>s\<rfloor> = f" using assms by linarith
  then show ?thesis using assms by (simp add: round_half_even_def Let_def)
qed

lemma fl_tieI:
  assumes lo: "2 powi k \<le> \<bar>x\<bar>" and hi: "\<bar>x\<bar> < 2 powi (k + 1)"
    and t: "x / 2 powi (k - int p + 1) = real_of_int f + 1 / 2"
    and y: "y = real_of_int (if even f then f else f + 1) * 2 powi (k - int p + 1)"
  shows "fl p x = y"
proof -
  have "0 < \<bar>x\<bar>" using lo by (rule less_le_trans [rotated]) simp
  then have x: "x \<noteq> 0" by simp
  have k: "ilog2 \<bar>x\<bar> = k" using lo hi by (rule ilog2_eqI)
  have "round_half_even (x / 2 powi (k - int p + 1)) = (if even f then f else f + 1)"
    using t by (rule round_half_even_tieI)
  then show ?thesis using x k y by (simp add: fl_def Let_def)
qed

section \<open>The Normalizer applied twice\<close>

lemma f64_1: "f64 1 = 1"
  unfolding f64_def
  by (rule fl_eqI [where k = "0" and m = "4503599627370496"]) (simp_all add: power_int_minus_divide)

lemma f64_100: "f64 100 = 100"
  unfolding f64_def
  by (rule fl_eqI [where k = "6" and m = "7036874417766400"]) (simp_all add: power_int_minus_divide)

lemma f64_7: "f64 7 = 7"
  unfolding f64_def
  by (rule fl_eqI [where k = "2" and m = "7881299347898368"]) (simp_all add: power_int_minus_divide)

lemma u53: "(2::real) powi (- int 53) = 1 / 9007199254740992"
  by (simp add: power_int_minus_divide)

lemma f64_error: "\<bar>f64 x - x\<bar> \<le> \<bar>x\<bar> / 9007199254740992"
  using fl_error [of 53 x] by (simp add: f64_def u53)

lemma normalize_once_f64_error:
  assumes x: "0 \<le> x" "x \<le> 100"
  shows "\<bar>f64 (f64 (f64 (x - 0) / f64 (100 - 0)) * 100) - x\<bar> \<le> 4 / 100000000000000"
proof -
  define d where "d = f64 x"
  define n where "n = f64 (d / 100)"
  define out where "out = f64 (n * 100)"
  have e1: "\<bar>d - x\<bar> \<le> \<bar>x\<bar> / 9007199254740992" unfolding d_def by (rule f64_error)
  have e2: "\<bar>n - d / 100\<bar> \<le> \<bar>d / 100\<bar> / 9007199254740992" unfolding n_def by (rule f64_error)
  have e3: "\<bar>out - n * 100\<bar> \<le> \<bar>n * 100\<bar> / 9007199254740992" unfolding out_def by (rule f64_error)
  have d1: "\<bar>d - x\<bar> \<le> 100 / 9007199254740992" using e1 x by simp
  have d2: "\<bar>d\<bar> \<le> 101" using d1 x by linarith
  have n1: "\<bar>n - d / 100\<bar> \<le> (101 / 100) / 9007199254740992"
  proof -
    have "\<bar>d / 100\<bar> \<le> 101 / 100" using d2 by linarith
    then have "\<bar>d / 100\<bar> / 9007199254740992 \<le> (101 / 100) / 9007199254740992"
      by (simp add: divide_right_mono)
    with e2 show ?thesis by linarith
  qed
  have n2: "\<bar>n\<bar> \<le> 102 / 100" using n1 d2 by linarith
  have o1: "\<bar>out - n * 100\<bar> \<le> 102 / 9007199254740992"
  proof -
    have "\<bar>n * 100\<bar> \<le> 102" using n2 by linarith
    then have "\<bar>n * 100\<bar> / 9007199254740992 \<le> 102 / 9007199254740992"
      by (simp add: divide_right_mono)
    with e3 show ?thesis by linarith
  qed
  have n3: "\<bar>n * 100 - d\<bar> \<le> 101 / 9007199254740992" using n1 by linarith
  have "\<bar>out - x\<bar> \<le> 102 / 9007199254740992 + 101 / 9007199254740992
      + 100 / 9007199254740992"
    using o1 n3 d1 by linarith
  then have "\<bar>out - x\<bar> \<le> 4 / 100000000000000" by linarith
  then show ?thesis by (simp add: out_def n_def d_def f64_100)
qed

lemma normalize_array_f64_unit:
  "normalize_array_f64 xs 0 100 False =
     Some (map (\<lambda>a. f64 (f64 (f64 (clip a 0 100 - 0) / f64 (100 - 0)) * 100)) xs)"
  by (simp add: normalize_array_f64_def Let_def f64_100)

lemma clip_unit_close:
  "0 \<le> x \<Longrightarrow> x \<le> 100 \<Longrightarrow>
   0 \<le> clip y 0 100 \<and> clip y 0 100 \<le> 100 \<and> \<bar>clip y 0 100 - x\<bar> \<le> \<bar>y - x\<bar>"
  by (simp add: clip_def min_def max_def)

text \<open>
  C9, as the code has it. For values in \<open>[0, 100]\<close>, normalizing twice with bounds
  \<open>(0, 100)\<close> and \<open>invert = False\<close> gives the values back in exact arithmetic; in float64
  arithmetic it gives them back up to rounding: every result is within \<open>10^-13\<close> of its
  input.
\<close>

theorem normalize_twice_f64_close:
  assumes r: "\<forall>x \<in> set xs. 0 \<le> x \<and> x \<le> 100"
  shows "Option.bind (normalize_array xs 0 100 False) (\<lambda>ys. normalize_array ys 0 100 False)
           = Some xs \<and>
         (\<exists>zs. normalize_twice_f64 xs = Some zs \<and> length zs = length xs \<and>
            (\<forall>i < length xs. \<bar>zs ! i - xs ! i\<bar> \<le> 1 / 10 ^ 13))"
proof
  have "map (\<lambda>a. (clip a 0 100 - 0) / (100 - 0) * 100) xs = xs"
    using r by (induction xs) (simp_all add: clip_def min_def max_def)
  then have "normalize_array xs 0 100 False = Some xs"
    by (simp add: normalize_array_def Let_def)
  then show "Option.bind (normalize_array xs 0 100 False) (\<lambda>ys. normalize_array ys 0 100 False)
           = Some xs"
    by simp
next
  let ?once = "\<lambda>a. f64 (f64 (f64 (clip a 0 100 - 0) / f64 (100 - 0)) * 100)"
  let ?zs = "map ?once (map ?once xs)"
  have tw: "normalize_twice_f64 xs = Some ?zs"
    by (simp add: normalize_twice_f64_def normalize_array_f64_unit)
  have px: "\<forall>i < length xs. \<bar>?zs ! i - xs ! i\<bar> \<le> 1 / 10 ^ 13"
  proof (intro allI impI)
    fix i assume i: "i < length xs"
    define x where "x = xs ! i"
    have x: "0 \<le> x" "x \<le> 100" using r i by (simp_all add: x_def)
    define y where "y = ?once x"
    define c where "c = clip y 0 100"
    have cx: "clip x 0 100 = x" using x by (simp add: clip_def min_def max_def)
    have e1: "\<bar>y - x\<bar> \<le> 4 / 100000000000000"
      using normalize_once_f64_error [OF x] by (simp add: y_def cx)
    from clip_unit_close [OF x, of y]
    have c: "0 \<le> c" "c \<le> 100" and e2: "\<bar>c - x\<bar> \<le> \<bar>y - x\<bar>" by (simp_all add: c_def)
    have e3: "\<bar>f64 (f64 (f64 (c - 0) / f64 (100 - 0)) * 100) - c\<bar> \<le> 4 / 100000000000000"
      by (rule normalize_once_f64_error [OF c])
    have "?zs ! i = f64 (f64 (f64 (c - 0) / f64 (100 - 0)) * 100)"
      using i by (simp add: c_def y_def x_def)
    moreover have "\<bar>f64 (f64 (f64 (c - 0) / f64 (100 - 0)) * 100) - x\<bar> \<le> 8 / 100000000000000"
      using e1 e2 e3 by linarith
    ultimately show "\<bar>?zs ! i - xs ! i\<bar> \<le> 1 / 10 ^ 13" by (simp add: x_def)
  qed
  show "\<exists>zs. normalize_twice_f64 xs = Some zs \<and> length zs = length xs \<and>
            (\<forall>i < length xs. \<bar>zs ! i - xs ! i\<bar> \<le> 1 / 10 ^ 13)"
    using tw px by (intro exI [of _ ?zs]) simp
qed

text \<open>The values 7, 0 and 100 meet the hypothesis of C9.\<close>

theorem normalize_twice_f64_close_witness:
  "list_all (\<lambda>x. 0 \<le> x \<and> x \<le> 100) [7, 0, 100 :: real] \<and>
   (\<exists>zs. normalize_twice_f64 [7, 0, 100] = Some zs \<and> length zs = 3 \<and>
      \<bar>zs ! 0 - 7\<bar> \<le> 1 / 10 ^ 13 \<and> \<bar>zs ! 1 - 0\<bar> \<le> 1 / 10 ^ 13 \<and>
      \<bar>zs ! 2 - 100\<bar> \<le> 1 / 10 ^ 13)"
proof -
  let ?xs = "[7, 0, 100 :: real]"
  have r: "\<forall>x \<in> set ?xs. 0 \<le> x \<and> x \<le> 100" by simp
  from normalize_twice_f64_close [OF r, THEN conjunct2] obtain zs where
    tw: "normalize_twice_f64 ?xs = Some zs" and len: "length zs = length ?xs"
    and px: "\<forall>i < length ?xs. \<bar>zs ! i - ?xs ! i\<bar> \<le> 1 / 10 ^ 13"
    by (elim exE conjE) (rule that, assumption+)
  from px [rule_format, of 0] have p0: "\<bar>zs ! 0 - 7\<bar> \<le> 1 / 10 ^ 13" by simp
  from px [rule_format, of 1] have p1: "\<bar>zs ! 1 - 0\<bar> \<le> 1 / 10 ^ 13" by simp
  from px [rule_format, of 2] have p2: "\<bar>zs ! 2 - 100\<bar> \<le> 1 / 10 ^ 13" by simp
  have l3: "length zs = 3" using len by simp
  have "\<exists>zs. normalize_twice_f64 ?xs = Some zs \<and> length zs = 3 \<and>
      \<bar>zs ! 0 - 7\<bar> \<le> 1 / 10 ^ 13 \<and> \<bar>zs ! 1 - 0\<bar> \<le> 1 / 10 ^ 13 \<and>
      \<bar>zs ! 2 - 100\<bar> \<le> 1 / 10 ^ 13"
    using tw l3 p0 p1 p2 by blast
  then show ?thesis by simp
qed

lemma f64_7_100: "f64 (7 / 100) = 1261007895663739 / 18014398509481984"
  unfolding f64_def
  by (rule fl_eqI [where k = "- 4" and m = "5044031582654956"]) (simp_all add: power_int_minus_divide)

lemma f64_7_back: "f64 (31525197391593475 / 4503599627370496) = 7881299347898369 / 1125899906842624"
  unfolding f64_def
  by (rule fl_eqI [where k = "2" and m = "7881299347898369"]) (simp_all add: power_int_minus_divide)

lemma f64_7_back_id: "f64 (7881299347898369 / 1125899906842624) = 7881299347898369 / 1125899906842624"
  unfolding f64_def
  by (rule fl_eqI [where k = "2" and m = "7881299347898369"]) (simp_all add: power_int_minus_divide)

lemma f64_7_second: "f64 (7881299347898369 / 112589990684262400) = 1261007895663739 / 18014398509481984"
  unfolding f64_def
  by (rule fl_eqI [where k = "- 4" and m = "5044031582654956"]) (simp_all add: power_int_minus_divide)

text \<open>
  C9 as stated fails: in float64, 7 / 100 * 100 is 7.000000000000001
  (\<open>7881299347898369 / 2^50\<close>), and normalizing that again returns the same value, not 7.
\<close>

theorem normalize_twice_f64_seven:
  "(0::real) \<le> 7 \<and> (7::real) \<le> 100 \<and>
   normalize_array_f64 [7] 0 100 False = Some [7881299347898369 / 1125899906842624] \<and>
   normalize_twice_f64 [7] = Some [7881299347898369 / 1125899906842624] \<and>
   (7881299347898369 / 1125899906842624 :: real) \<noteq> 7"
  by (simp add: normalize_twice_f64_def normalize_array_f64_def clip_def Let_def
      f64_100 f64_7 f64_7_100 f64_7_back f64_7_back_id f64_7_second)

section \<open>The stages of the engine\<close>

lemma constraint_mask_Inr:
  assumes "common_grid L"
  shows "constraint_mask L C = Inr (map (excluded_at L C) [0..<length (ghi_data L)])"
proof -
  have eq: "\<And>xs ys :: bool list. length xs = length ys \<Longrightarrow> (\<And>i. i < length xs \<Longrightarrow> xs ! i = ys ! i) \<Longrightarrow> xs = ys"
    by (rule nth_equalityI) auto
  show ?thesis
    using assms
    by (cases "slope_gt C"; cases "lulc_exclude C"; cases "grid_dist_gt C")
       (auto simp: constraint_mask_def bind_err_def mask_or_def common_grid_def excluded_at_def
             intro!: nth_equalityI)
qed

lemma normalized_layers_Inr:
  "normalized_layers L ws = Inr (\<lambda>k. if has_key k ws then factor_layer L k else None)"
  by (auto simp: normalized_layers_def put_normalized_def bind_err_def factor_layer_def
        normalize_array_def fun_eq_iff)

lemma weighted_overlay_Inr:
  "(\<forall>a \<in> ran nl. length a = length acc) \<Longrightarrow>
   weighted_overlay nl ws acc =
     Inr (map (\<lambda>i. acc ! i + sum_list (map (\<lambda>(k, w). case nl k of None \<Rightarrow> 0 | Some a \<Rightarrow> a ! i * (w / 100)) ws))
            [0..<length acc])"
proof (induction ws arbitrary: acc)
  case Nil
  then show ?case by (simp add: map_nth)
next
  case (Cons p ws)
  obtain k w where p: "p = (k, w)" by (cases p)
  show ?case
  proof (cases "nl k")
    case None
    then show ?thesis using Cons p by simp
  next
    case (Some a)
    then have la: "length a = length acc" using Cons.prems by (auto simp: ran_def)
    let ?acc' = "map2 (+) acc (map (\<lambda>x. x * (w / 100)) a)"
    have "\<forall>a \<in> ran nl. length a = length ?acc'" using Cons.prems la by simp
    from Cons.IH [OF this] show ?thesis using Some p la by (simp add: algebra_simps)
  qed
qed

lemma factor_layer_length: "factor_layer L k = Some a \<Longrightarrow> common_grid L \<Longrightarrow> length a = length (ghi_data L)"
  by (auto simp: factor_layer_def normalize_array_def common_grid_def split: if_splits)

lemma normalize_array_range:
  "lo < hi \<Longrightarrow> normalize_array arr lo hi invert = Some a \<Longrightarrow> i < length a \<Longrightarrow> 0 \<le> a ! i \<and> a ! i \<le> 100"
proof -
  assume lt: "lo < hi" and n: "normalize_array arr lo hi invert = Some a" and i: "i < length a"
  define t where "t = (clip (arr ! i) lo hi - lo) / (hi - lo)"
  have b: "lo \<le> clip (arr ! i) lo hi \<and> clip (arr ! i) lo hi \<le> hi"
    using lt by (simp add: clip_def min_def max_def)
  have t0: "0 \<le> t" using b lt by (simp add: t_def)
  have t1: "t \<le> 1" using b lt by (simp add: t_def)
  have a: "a ! i = (if invert then 1 - t else t) * 100"
    using n i lt by (auto simp: normalize_array_def Let_def t_def split: if_splits)
  show ?thesis
  proof (cases invert)
    case True
    then have "a ! i = (1 - t) * 100" using a by simp
    then show ?thesis using t0 t1 by simp
  next
    case False
    then have "a ! i = t * 100" using a by simp
    then show ?thesis using t0 t1 by simp
  qed
qed

lemma factor_layer_range:
  "factor_layer L k = Some a \<Longrightarrow> i < length a \<Longrightarrow> 0 \<le> a ! i \<and> a ! i \<le> 100"
  by (auto simp: factor_layer_def split: if_splits
      dest: normalize_array_range [rotated 1])

lemma job_layers_ran_length:
  "common_grid L \<Longrightarrow> a \<in> ran (job_layers L ws) \<Longrightarrow> length a = length (ghi_data L)"
  by (auto simp: ran_def job_layers_def split: if_splits dest: factor_layer_length)

lemma process_mcda_job_Inr:
  assumes aoi: "aoi_layers e (aoi_id job) = Some L" and grid: "common_grid L"
  shows "\<exists>res. process_mcda_job e job = Inr res \<and>
           raster res = expected_raster L job \<and>
           statistics res = compute_statistics (ghi_data L) (expected_raster L job)
                              (map (excluded_at L (constraints_json job)) [0..<length (ghi_data L)])"
proof -
  let ?n = "length (ghi_data L)"
  let ?ws = "weights_json job"
  let ?nl = "job_layers L ?ws"
  have nl: "normalized_layers L ?ws = Inr ?nl"
    by (simp add: normalized_layers_Inr job_layers_def)
  have "\<forall>a \<in> ran ?nl. length a = length (replicate ?n (0::real))"
    using grid by (simp add: job_layers_ran_length)
  from weighted_overlay_Inr [OF this, of ?ws]
  have ov: "weighted_overlay ?nl ?ws (replicate ?n 0) = Inr (map (overlay_sum ?nl ?ws) [0..<?n])"
    by (simp add: overlay_sum_def cong: map_cong)
  have ap: "apply_constraints (map (overlay_sum ?nl ?ws) [0..<?n])
              (map (excluded_at L (constraints_json job)) [0..<?n]) = expected_raster L job"
    by (auto simp: apply_constraints_def expected_raster_def intro!: nth_equalityI)
  show ?thesis
    by (simp add: process_mcda_job_def aoi constraint_mask_Inr [OF grid] nl ov bind_err_def ap Let_def)
qed

section \<open>The weighted overlay\<close>



lemma overlay_sum_bounds:
  assumes r: "\<And>k a. nl k = Some a \<Longrightarrow> 0 \<le> a ! i \<and> a ! i \<le> 100"
    and w: "\<forall>p \<in> set ws. 0 \<le> snd p"
  shows "0 \<le> overlay_sum nl ws i \<and> overlay_sum nl ws i \<le> sum_list (map snd ws)"
  using w
proof (induction ws)
  case Nil
  then show ?case by (simp add: overlay_sum_def)
next
  case (Cons p ws)
  obtain k w where p: "p = (k, w)" by (cases p)
  have w0: "0 \<le> w" using Cons.prems p by simp
  have ih: "0 \<le> overlay_sum nl ws i \<and> overlay_sum nl ws i \<le> sum_list (map snd ws)"
    using Cons by simp
  have step: "overlay_sum nl (p # ws) i =
        (case nl k of None \<Rightarrow> 0 | Some a \<Rightarrow> a ! i * (w / 100)) + overlay_sum nl ws i"
    by (simp add: overlay_sum_def p)
  have t: "0 \<le> (case nl k of None \<Rightarrow> 0 | Some a \<Rightarrow> a ! i * (w / 100)) \<and>
           (case nl k of None \<Rightarrow> 0 | Some a \<Rightarrow> a ! i * (w / 100)) \<le> w"
  proof (cases "nl k")
    case None
    then show ?thesis using w0 by simp
  next
    case (Some a)
    from r [OF Some] have a: "0 \<le> a ! i" "a ! i \<le> 100" by simp_all
    have "a ! i * (w / 100) \<le> 100 * (w / 100)"
      using a w0 by (intro mult_right_mono) simp_all
    then show ?thesis using Some a w0 by simp
  qed
  show ?case using step t ih p by simp
qed

lemmas sample_defs =
  sample_layers_def sample_env_def sample_constraints_def sample_weights_def sample_job_def

lemmas engine_defs =
  process_mcda_job_def constraint_mask_def mask_or_def bind_err_def normalized_layers_def
  put_normalized_def has_key_def normalize_array_def clip_def apply_constraints_def Let_def




section \<open>Score range and statistics\<close>

lemma job_layers_range:
  "common_grid L \<Longrightarrow> job_layers L ws k = Some a \<Longrightarrow> i < length (ghi_data L) \<Longrightarrow>
   0 \<le> a ! i \<and> a ! i \<le> 100"
proof -
  assume grid: "common_grid L" and a: "job_layers L ws k = Some a" and i: "i < length (ghi_data L)"
  from a have f: "factor_layer L k = Some a" by (simp add: job_layers_def split: if_splits)
  from factor_layer_length [OF f grid] i have "i < length a" by simp
  with f show ?thesis by (rule factor_layer_range)
qed

lemma expected_raster_unmasked:
  assumes grid: "common_grid L" and w: "\<forall>p \<in> set (weights_json job). 0 \<le> snd p"
    and i: "i < length (ghi_data L)" and nm: "\<not> excluded_at L (constraints_json job) i"
  shows "0 \<le> expected_raster L job ! i \<and>
         expected_raster L job ! i \<le> sum_list (map snd (weights_json job))"
proof -
  have "expected_raster L job ! i =
          overlay_sum (job_layers L (weights_json job)) (weights_json job) i"
    using i nm by (simp add: expected_raster_def)
  moreover have "0 \<le> overlay_sum (job_layers L (weights_json job)) (weights_json job) i \<and>
      overlay_sum (job_layers L (weights_json job)) (weights_json job) i
        \<le> sum_list (map snd (weights_json job))"
    by (rule overlay_sum_bounds) (use w job_layers_range [OF grid _ i] in auto)
  ultimately show ?thesis by simp
qed

text \<open>
  In exact arithmetic, for a job whose weights are non-negative and sum to 100, every
  output pixel that the exclusion mask does not set to the sentinel has a score in
  \<open>[0, 100]\<close>.
\<close>

lemma score_in_range_exact:
  assumes aoi: "aoi_layers e (aoi_id job) = Some L"
    and grid: "common_grid L"
    and nonneg: "\<forall>p \<in> set (weights_json job). 0 \<le> snd p"
    and total: "sum_list (map snd (weights_json job)) = 100"
  shows "\<exists>res m.
           process_mcda_job e job = Inr res \<and>
           constraint_mask L (constraints_json job) = Inr m \<and>
           length (raster res) = length (ghi_data L) \<and>
           length m = length (ghi_data L) \<and>
           (\<forall>i < length (ghi_data L).
              \<not> m ! i \<longrightarrow> 0 \<le> raster res ! i \<and> raster res ! i \<le> 100)"
proof -
  let ?n = "length (ghi_data L)"
  let ?m = "map (excluded_at L (constraints_json job)) [0..<?n]"
  from process_mcda_job_Inr [OF aoi grid] obtain res where
    res: "process_mcda_job e job = Inr res" and ras: "raster res = expected_raster L job"
    by blast
  have m: "constraint_mask L (constraints_json job) = Inr ?m"
    by (rule constraint_mask_Inr [OF grid])
  have px: "\<forall>i < ?n. \<not> ?m ! i \<longrightarrow> 0 \<le> raster res ! i \<and> raster res ! i \<le> 100"
    using expected_raster_unmasked [OF grid nonneg] total by (simp add: ras)
  have len: "length (raster res) = ?n" by (simp add: ras expected_raster_def)
  show ?thesis using res m px len by (intro exI [of _ res] exI [of _ ?m]) simp
qed

lemma valid_data_expected:
  assumes grid: "common_grid L" and w: "\<forall>p \<in> set (weights_json job). 0 \<le> snd p"
  shows "valid_data (expected_raster L job) =
         map (\<lambda>i. expected_raster L job ! i)
           (filter (\<lambda>i. \<not> excluded_at L (constraints_json job) i) [0..<length (ghi_data L)])"
proof -
  let ?n = "length (ghi_data L)"
  let ?f = "\<lambda>i. if excluded_at L (constraints_json job) i then nodata_val
               else overlay_sum (job_layers L (weights_json job)) (weights_json job) i"
  have keep: "\<And>i. i \<in> set [0..<?n] \<Longrightarrow>
                (?f i \<noteq> nodata_val) = (\<not> excluded_at L (constraints_json job) i)"
  proof -
    fix i assume "i \<in> set [0..<?n]"
    then have i: "i < ?n" by simp
    show "(?f i \<noteq> nodata_val) = (\<not> excluded_at L (constraints_json job) i)"
    proof (cases "excluded_at L (constraints_json job) i")
      case True
      then show ?thesis by simp
    next
      case False
      from expected_raster_unmasked [OF grid w i False]
      have "0 \<le> ?f i" using i False by (simp add: expected_raster_def)
      then show ?thesis using False by (simp add: nodata_val_def)
    qed
  qed
  have "valid_data (expected_raster L job) =
          map ?f (filter (\<lambda>i. ?f i \<noteq> nodata_val) [0..<?n])"
    by (simp add: valid_data_def expected_raster_def filter_map comp_def)
  also have "filter (\<lambda>i. ?f i \<noteq> nodata_val) [0..<?n] =
             filter (\<lambda>i. \<not> excluded_at L (constraints_json job) i) [0..<?n]"
    by (rule filter_cong [OF refl keep])
  also have "map ?f (filter (\<lambda>i. \<not> excluded_at L (constraints_json job) i) [0..<?n]) =
             map (\<lambda>i. expected_raster L job ! i)
               (filter (\<lambda>i. \<not> excluded_at L (constraints_json job) i) [0..<?n])"
    by (rule map_cong [OF refl]) (simp add: expected_raster_def)
  finally show ?thesis .
qed

lemma count_masked:
  "length (filter (\<lambda>b. b) (map P xs)) + length (filter (\<lambda>i. \<not> P i) xs) = length xs"
  by (induction xs) simp_all

text \<open>
  C10. For a job with non-negative weights, \<open>valid_pixels + excluded_pixels =
  total_pixels\<close>, and \<open>total_pixels\<close> is the pixel count of the grid. The valid data are the
  scores of all pixels that the mask does not exclude, whatever the source layers hold
  there (so a pixel that is no-data in a source layer and not excluded counts as valid),
  and mean, max, min and standard deviation are taken over them.
\<close>

theorem statistics_partition:
  assumes aoi: "aoi_layers e (aoi_id job) = Some L"
    and grid: "common_grid L"
    and nonneg: "\<forall>p \<in> set (weights_json job). 0 \<le> snd p"
  shows "\<exists>res m.
           process_mcda_job e job = Inr res \<and>
           constraint_mask L (constraints_json job) = Inr m \<and>
           total_pixels (statistics res) = length (ghi_data L) \<and>
           valid_pixels (statistics res) + excluded_pixels (statistics res)
             = total_pixels (statistics res) \<and>
           valid_data (raster res) =
             map (\<lambda>i. raster res ! i) (filter (\<lambda>i. \<not> m ! i) [0..<length (ghi_data L)]) \<and>
           valid_pixels (statistics res) = length (valid_data (raster res)) \<and>
           mean_suitability (statistics res) =
             (if length (valid_data (raster res)) > 0 then np_mean (valid_data (raster res)) else 0) \<and>
           max_suitability (statistics res) =
             (if length (valid_data (raster res)) > 0 then Max (set (valid_data (raster res))) else 0) \<and>
           min_suitability (statistics res) =
             (if length (valid_data (raster res)) > 0 then Min (set (valid_data (raster res))) else 0) \<and>
           std_suitability (statistics res) =
             (if length (valid_data (raster res)) > 0 then np_std (valid_data (raster res)) else 0)"
proof -
  let ?n = "length (ghi_data L)"
  let ?ex = "excluded_at L (constraints_json job)"
  let ?m = "map ?ex [0..<?n]"
  from process_mcda_job_Inr [OF aoi grid] obtain res where
    res: "process_mcda_job e job = Inr res" and ras: "raster res = expected_raster L job"
    and st: "statistics res = compute_statistics (ghi_data L) (expected_raster L job) ?m"
    by blast
  have m: "constraint_mask L (constraints_json job) = Inr ?m"
    by (rule constraint_mask_Inr [OF grid])
  have "filter (\<lambda>i. \<not> ?m ! i) [0..<?n] = filter (\<lambda>i. \<not> ?ex i) [0..<?n]"
    by (rule filter_cong [OF refl]) simp
  then have vd: "valid_data (raster res) =
                 map (\<lambda>i. raster res ! i) (filter (\<lambda>i. \<not> ?m ! i) [0..<?n])"
    using valid_data_expected [OF grid nonneg] by (simp add: ras)
  have lv: "length (valid_data (raster res)) = length (filter (\<lambda>i. \<not> ?ex i) [0..<?n])"
    using valid_data_expected [OF grid nonneg] by (simp add: ras)
  have tot: "total_pixels (statistics res) = ?n"
    by (simp add: st compute_statistics_def Let_def)
  have val: "valid_pixels (statistics res) = length (valid_data (raster res))"
    by (simp add: st ras compute_statistics_def Let_def)
  have exc: "excluded_pixels (statistics res) = length (filter (\<lambda>b. b) ?m)"
    by (simp add: st compute_statistics_def Let_def)
  have part: "valid_pixels (statistics res) + excluded_pixels (statistics res)
                = total_pixels (statistics res)"
    using count_masked [of ?ex "[0..<?n]"] by (simp add: val lv exc tot)
  have rest: "mean_suitability (statistics res) =
             (if length (valid_data (raster res)) > 0 then np_mean (valid_data (raster res)) else 0) \<and>
           max_suitability (statistics res) =
             (if length (valid_data (raster res)) > 0 then Max (set (valid_data (raster res))) else 0) \<and>
           min_suitability (statistics res) =
             (if length (valid_data (raster res)) > 0 then Min (set (valid_data (raster res))) else 0) \<and>
           std_suitability (statistics res) =
             (if length (valid_data (raster res)) > 0 then np_std (valid_data (raster res)) else 0)"
    by (simp add: st ras compute_statistics_def Let_def)
  show ?thesis
    using res m tot part vd val rest by (intro exI [of _ res] exI [of _ ?m]) simp
qed

text \<open>
  The sample job meets the hypotheses of C10; its pixel 0 is no-data in the GHI window, is
  not excluded, and is one of the two valid pixels.
\<close>

theorem statistics_partition_witness:
  "aoi_layers sample_env (aoi_id sample_job) = Some sample_layers \<and>
   common_grid sample_layers \<and>
   list_all (\<lambda>p. 0 \<le> snd p) (weights_json sample_job) \<and>
   ghi_data sample_layers ! 0 = nodata_val \<and>
   constraint_mask sample_layers (constraints_json sample_job) = Inr [False, False, True] \<and>
   (\<exists>res. process_mcda_job sample_env sample_job = Inr res \<and>
      total_pixels (statistics res) = 3 \<and>
      valid_pixels (statistics res) = 2 \<and>
      excluded_pixels (statistics res) = 1 \<and>
      valid_data (raster res) = [raster res ! 0, raster res ! 1])"
proof -
  have aoi: "aoi_layers sample_env (aoi_id sample_job) = Some sample_layers"
    by (simp add: sample_defs)
  have grid: "common_grid sample_layers"
    by (simp add: common_grid_def sample_defs)
  have nonneg: "\<forall>p \<in> set (weights_json sample_job). 0 \<le> snd p"
    by (simp add: sample_defs)
  have nd: "ghi_data sample_layers ! 0 = nodata_val"
    by (simp add: sample_defs nodata_val_def)
  have m: "constraint_mask sample_layers (constraints_json sample_job) = Inr [False, False, True]"
    by (simp add: sample_defs engine_defs)
  have l: "length (ghi_data sample_layers) = 3" by (simp add: sample_defs)
  have f: "filter (\<lambda>i. \<not> [False, False, True] ! i) [0..<3] = [0, 1]"
    by code_simp
  from statistics_partition [OF aoi grid nonneg] obtain res m' where
    res: "process_mcda_job sample_env sample_job = Inr res"
    and m': "constraint_mask sample_layers (constraints_json sample_job) = Inr m'"
    and tot: "total_pixels (statistics res) = length (ghi_data sample_layers)"
    and part: "valid_pixels (statistics res) + excluded_pixels (statistics res)
                 = total_pixels (statistics res)"
    and vd: "valid_data (raster res) =
               map (\<lambda>i. raster res ! i)
                 (filter (\<lambda>i. \<not> m' ! i) [0..<length (ghi_data sample_layers)])"
    and val: "valid_pixels (statistics res) = length (valid_data (raster res))"
    by blast
  from m m' have mm: "m' = [False, False, True]" by simp
  have vd2: "valid_data (raster res) = [raster res ! 0, raster res ! 1]"
    using vd by (simp add: mm l f)
  have v2: "valid_pixels (statistics res) = 2" using val vd2 by simp
  have t3: "total_pixels (statistics res) = 3" using tot l by simp
  have e1: "excluded_pixels (statistics res) = 1" using part v2 t3 by simp
  show ?thesis using aoi grid nonneg nd m res t3 v2 e1 vd2 by (simp add: list_all_iff)
qed

section \<open>The exclusion mask and no-data\<close>

text \<open>
  C7, as the code has it. The compiled mask is set at a pixel exactly when the pixel's value
  satisfies the predicate of a declared constraint (slope above \<open>slope_gt\<close>, land cover in
  \<open>lulc_exclude\<close>, grid distance above \<open>grid_dist_gt\<close>). The no-data sentinel is compared
  like any other value: with only \<open>slope_gt\<close> declared, a pixel whose slope is the sentinel
  is excluded exactly when the threshold is below the sentinel.
\<close>

theorem constraint_mask_predicates:
  assumes grid: "common_grid L"
  shows "\<exists>m. constraint_mask L C = Inr m \<and> length m = length (ghi_data L) \<and>
           (\<forall>i < length (ghi_data L).
              m ! i = ((\<exists>v. slope_gt C = Some v \<and> slope_data L ! i > v) \<or>
                       (\<exists>cs. lulc_exclude C = Some cs \<and> lulc_data L ! i \<in> set cs) \<or>
                       (\<exists>v. grid_dist_gt C = Some v \<and> grid_dist_data L ! i > v))) \<and>
           (\<forall>i < length (ghi_data L). \<forall>v.
              slope_gt C = Some v \<and> lulc_exclude C = None \<and> grid_dist_gt C = None \<and>
              slope_data L ! i = nodata_val \<longrightarrow> m ! i = (v < nodata_val))"
proof -
  let ?m = "map (excluded_at L C) [0..<length (ghi_data L)]"
  have m: "constraint_mask L C = Inr ?m" by (rule constraint_mask_Inr [OF grid])
  have a: "\<forall>i < length (ghi_data L).
              ?m ! i = ((\<exists>v. slope_gt C = Some v \<and> slope_data L ! i > v) \<or>
                       (\<exists>cs. lulc_exclude C = Some cs \<and> lulc_data L ! i \<in> set cs) \<or>
                       (\<exists>v. grid_dist_gt C = Some v \<and> grid_dist_data L ! i > v))"
    by (auto simp: excluded_at_def split: option.splits)
  have b: "\<forall>i < length (ghi_data L). \<forall>v.
              slope_gt C = Some v \<and> lulc_exclude C = None \<and> grid_dist_gt C = None \<and>
              slope_data L ! i = nodata_val \<longrightarrow> ?m ! i = (v < nodata_val)"
    by (auto simp: excluded_at_def)
  show ?thesis using m a b by (intro exI [of _ ?m]) simp
qed

text \<open>
  The sample layers lie on a common grid; their mask is computed.
\<close>

theorem constraint_mask_predicates_witness:
  "common_grid sample_layers \<and>
   slope_gt slope_only = Some 10 \<and> lulc_exclude slope_only = None \<and>
   grid_dist_gt slope_only = None \<and>
   slope_data sample_layers ! 0 = nodata_val \<and>
   slope_data sample_layers ! 2 > 10 \<and>
   (\<exists>m. constraint_mask sample_layers slope_only = Inr m \<and> \<not> m ! 0 \<and> m ! 2)"
proof -
  have grid: "common_grid sample_layers"
    by (simp add: common_grid_def sample_defs)
  have c: "slope_gt slope_only = Some 10 \<and> lulc_exclude slope_only = None \<and>
           grid_dist_gt slope_only = None"
    by (simp add: slope_only_def)
  have nd: "slope_data sample_layers ! 0 = nodata_val"
    by (simp add: sample_defs nodata_val_def)
  have s2: "slope_data sample_layers ! 2 > 10" by (simp add: sample_defs)
  have l: "length (ghi_data sample_layers) = 3" by (simp add: sample_defs)
  from constraint_mask_predicates [OF grid, of slope_only] obtain m where
    m: "constraint_mask sample_layers slope_only = Inr m"
    and px: "\<forall>i < length (ghi_data sample_layers).
              m ! i = ((\<exists>v. slope_gt slope_only = Some v \<and> slope_data sample_layers ! i > v) \<or>
                       (\<exists>cs. lulc_exclude slope_only = Some cs \<and>
                              lulc_data sample_layers ! i \<in> set cs) \<or>
                       (\<exists>v. grid_dist_gt slope_only = Some v \<and>
                             grid_dist_data sample_layers ! i > v))"
    and nd_px: "\<forall>i < length (ghi_data sample_layers). \<forall>v.
              slope_gt slope_only = Some v \<and> lulc_exclude slope_only = None \<and>
              grid_dist_gt slope_only = None \<and>
              slope_data sample_layers ! i = nodata_val \<longrightarrow> m ! i = (v < nodata_val)"
    by blast
  from nd_px l c nd have "m ! 0 = ((10::real) < nodata_val)" by simp
  then have m0: "\<not> m ! 0" by (simp add: nodata_val_def)
  from px l have "m ! 2 = ((\<exists>v. slope_gt slope_only = Some v \<and> slope_data sample_layers ! 2 > v) \<or>
                       (\<exists>cs. lulc_exclude slope_only = Some cs \<and>
                              lulc_data sample_layers ! 2 \<in> set cs) \<or>
                       (\<exists>v. grid_dist_gt slope_only = Some v \<and>
                             grid_dist_data sample_layers ! 2 > v))"
    by simp
  then have m2: "m ! 2" using c s2 by simp
  show ?thesis using grid c nd s2 m m0 m2 by blast
qed

text \<open>
  C7 as stated fails: \<open>slope_gt\<close> is declared, pixel 0 of the slope window is the no-data
  sentinel, and the mask is not set there.
\<close>

theorem nodata_constraint_pixel_not_excluded:
  "slope_gt sample_constraints = Some 10 \<and>
   slope_data sample_layers ! 0 = nodata_val \<and>
   constraint_mask sample_layers sample_constraints = Inr [False, False, True]"
  by (simp add: sample_defs engine_defs nodata_val_def)

text \<open>
  C2 at a concrete input: pixel 0 of the sample is no-data in the GHI and slope windows;
  the Normalizer maps the sentinel to the scores 0 and 100, and the output there is 60,
  not the sentinel.
\<close>

theorem nodata_source_pixel_scored:
  "ghi_data sample_layers ! 0 = nodata_val \<and>
   slope_data sample_layers ! 0 = nodata_val \<and>
   normalize_array [nodata_val] 1000 2500 False = Some [0] \<and>
   normalize_array [nodata_val] 0 10 True = Some [100] \<and>
   map_sum id raster (process_mcda_job sample_env sample_job) = Inr [60, 100, - 9999]"
  by (simp add: sample_defs engine_defs nodata_val_def)

section \<open>The score range in float arithmetic\<close>

lemma ev_f64_0: "f64 (1500) = 1500"
  unfolding f64_def
  by (rule fl_eqI [where k = "10" and m = "6597069766656000"]) (simp_all add: power_int_minus_divide)

lemma ev_f64_1: "f64 (1) = 1"
  unfolding f64_def
  by (rule fl_eqI [where k = "0" and m = "4503599627370496"]) (simp_all add: power_int_minus_divide)

lemma ev_f64_2: "f64 (100) = 100"
  unfolding f64_def
  by (rule fl_eqI [where k = "6" and m = "7036874417766400"]) (simp_all add: power_int_minus_divide)

lemma ev_f64_3: "f64 (10) = 10"
  unfolding f64_def
  by (rule fl_eqI [where k = "3" and m = "5629499534213120"]) (simp_all add: power_int_minus_divide)

lemma ev_f64_4: "f64 (10000) = 10000"
  unfolding f64_def
  by (rule fl_eqI [where k = "13" and m = "5497558138880000"]) (simp_all add: power_int_minus_divide)

lemma ev_f64_5: "f64 (940126422213591 / 2814749767106560) = 3008404551083491 / 9007199254740992"
  unfolding f64_def
  by (rule fl_eqI [where k = "- 2" and m = "6016809102166982"]) (simp_all add: power_int_minus_divide)

lemma ev_f64_6: "f64 (75210113777087275 / 2251799813685248) = 4700632111067955 / 140737488355328"
  unfolding f64_def
  by (rule fl_eqI [where k = "5" and m = "4700632111067955"]) (simp_all add: power_int_minus_divide)

lemma ev_f64_7: "f64 (4700632111067955 / 140737488355328) = 4700632111067955 / 140737488355328"
  unfolding f64_def
  by (rule fl_eqI [where k = "5" and m = "4700632111067955"]) (simp_all add: power_int_minus_divide)

lemma ev_f32_8: "f32 (4700632111067955 / 140737488355328) = 4377805 / 131072"
  unfolding f32_def
  by (rule fl_eqI [where k = "5" and m = "8755610"]) (simp_all add: power_int_minus_divide)

lemma ev_f64_9: "f64 (2343279181116211 / 7036874417766400) = 1499698675914375 / 4503599627370496"
  unfolding f64_def
  by (rule fl_eqI [where k = "- 2" and m = "5998794703657500"]) (simp_all add: power_int_minus_divide)

lemma ev_f64_10: "f64 (37492466897859375 / 1125899906842624) = 2343279181116211 / 70368744177664"
  unfolding f64_def
  by (rule fl_eqI [where k = "5" and m = "4686558362232422"]) (simp_all add: power_int_minus_divide)

lemma ev_f64_11: "f64 (4693595344024371 / 70368744177664) = 4693595344024371 / 70368744177664"
  unfolding f64_def
  by (rule fl_eqI [where k = "6" and m = "4693595344024371"]) (simp_all add: power_int_minus_divide)

lemma ev_f32_12: "f32 (4693595344024371 / 70368744177664) = 8742503 / 131072"
  unfolding f32_def
  by (rule fl_eqI [where k = "6" and m = "8742503"]) (simp_all add: power_int_minus_divide)

lemma ev_f64_13: "f64 (4686558362232423 / 14073748835532800) = 5998794703657501 / 18014398509481984"
  unfolding f64_def
  by (rule fl_eqI [where k = "- 2" and m = "5998794703657501"]) (simp_all add: power_int_minus_divide)

lemma ev_f64_14: "f64 (149969867591437525 / 4503599627370496) = 4686558362232423 / 140737488355328"
  unfolding f64_def
  by (rule fl_eqI [where k = "5" and m = "4686558362232423"]) (simp_all add: power_int_minus_divide)

lemma ev_f64_15: "f64 (14073749479777895 / 140737488355328) = 1759218684972237 / 17592186044416"
  unfolding f64_def
  by (rule fl_tieI [where k = "6" and f = "7036874739888947"]) (simp_all add: power_int_minus_divide)

lemma ev_f32_16: "f32 (1759218684972237 / 17592186044416) = 13107201 / 131072"
  unfolding f32_def
  by (rule fl_eqI [where k = "6" and m = "13107201"]) (simp_all add: power_int_minus_divide)

lemmas thirds_evals = fl_0 [of 53, folded f64_def] ev_f64_0 ev_f64_1 ev_f64_2 ev_f64_3 ev_f64_4 ev_f64_5 ev_f64_6 ev_f64_7 ev_f32_8 ev_f64_9 ev_f64_10 ev_f64_11 ev_f32_12 ev_f64_13 ev_f64_14 ev_f64_15 ev_f32_16

lemma thirds_final_map:
  "final_map_f32 best_layers thirds_job = Inr [13107201 / 131072]"
  by (simp add: thirds_job_def best_layers_def final_map_f32_def constraint_mask_def
      normalized_layers_f64_def put_normalized_f64_def normalize_array_f64_def has_key_def
      bind_err_def clip_def apply_constraints_def Let_def thirds_evals)

text \<open>
  C6 as stated fails: the weights are non-negative and sum to 100, no pixel is excluded,
  every factor has its best value, and the float32 accumulator ends at
  100.00000762939453 (\<open>13107201 / 2^17\<close>), above 100.
\<close>

theorem thirds_job_above_100:
  "list_all (\<lambda>p. 0 \<le> snd p) (weights_json thirds_job) \<and>
   sum_list (map snd (weights_json thirds_job)) = 100 \<and>
   constraint_mask best_layers (constraints_json thirds_job) = Inr [False] \<and>
   final_map_f32 best_layers thirds_job = Inr [13107201 / 131072] \<and>
   (13107201 / 131072 :: real) > 100"
  using thirds_final_map
  by (simp add: thirds_job_def best_layers_def constraint_mask_def bind_err_def)

lemma f64_10: "f64 (10) = 10"
  unfolding f64_def
  by (rule fl_eqI [where k = "3" and m = "5629499534213120"]) (simp_all add: power_int_minus_divide)

lemma f64_1500: "f64 (1500) = 1500"
  unfolding f64_def
  by (rule fl_eqI [where k = "10" and m = "6597069766656000"]) (simp_all add: power_int_minus_divide)

lemma f64_5000: "f64 (5000) = 5000"
  unfolding f64_def
  by (rule fl_eqI [where k = "12" and m = "5497558138880000"]) (simp_all add: power_int_minus_divide)

lemma f64_10000: "f64 (10000) = 10000"
  unfolding f64_def
  by (rule fl_eqI [where k = "13" and m = "5497558138880000"]) (simp_all add: power_int_minus_divide)

lemma f64_nonneg: "0 \<le> x \<Longrightarrow> 0 \<le> f64 x"
  by (simp add: f64_def fl_nonneg)

lemma f32_nonneg: "0 \<le> x \<Longrightarrow> 0 \<le> f32 x"
  by (simp add: f32_def fl_nonneg)

lemma f64_le: "0 \<le> x \<Longrightarrow> x \<le> y \<Longrightarrow> f64 y = y \<Longrightarrow> f64 x \<le> y"
  unfolding f64_def by (rule fl_le)

lemma f64_up:
  assumes "0 \<le> x"
  shows "f64 x \<le> x * (1 + 1 / 9007199254740992)"
proof -
  have "f64 x - x \<le> \<bar>f64 x - x\<bar>" by simp
  also have "\<dots> \<le> \<bar>x\<bar> / 9007199254740992" by (rule f64_error)
  finally have "f64 x \<le> x + x / 9007199254740992" using assms by simp
  then show ?thesis by (simp add: distrib_left)
qed

lemma u24: "(2::real) powi (- int 24) = 1 / 16777216"
  by (simp add: power_int_minus_divide)

lemma f32_up:
  assumes "0 \<le> x"
  shows "f32 x \<le> x * (1 + 1 / 16777216)"
proof -
  have "f32 x - x \<le> \<bar>f32 x - x\<bar>" by simp
  also have "\<dots> \<le> \<bar>x\<bar> / 16777216"
    using fl_error [of 24 x] by (simp add: f32_def u24)
  finally have "f32 x \<le> x + x / 16777216" using assms by simp
  then show ?thesis by (simp add: distrib_left)
qed

lemma normalize_array_f64_range:
  assumes lt: "lo < hi" and rep: "f64 (hi - lo) = hi - lo"
    and n: "normalize_array_f64 arr lo hi invert = Some a" and i: "i < length a"
  shows "0 \<le> a ! i \<and> a ! i \<le> 100"
proof -
  define c where "c = clip (arr ! i) lo hi"
  define d where "d = f64 (c - lo)"
  define n0 where "n0 = f64 (d / (hi - lo))"
  define n1 where "n1 = (if invert then f64 (1 - n0) else n0)"
  have cb: "lo \<le> c" "c \<le> hi" using lt by (simp_all add: c_def clip_def min_def max_def)
  have d0: "0 \<le> d" unfolding d_def using cb by (intro f64_nonneg) simp
  have d1: "d \<le> hi - lo" unfolding d_def using cb rep by (intro f64_le) simp_all
  have q0: "0 \<le> d / (hi - lo)" using d0 lt by simp
  have q1: "d / (hi - lo) \<le> 1" using d1 lt by simp
  have n00: "0 \<le> n0" unfolding n0_def using q0 by (rule f64_nonneg)
  have n01: "n0 \<le> 1" unfolding n0_def using q0 q1 f64_1 by (rule f64_le)
  have n10: "0 \<le> n1"
    unfolding n1_def using n00 n01 by (auto intro!: f64_nonneg)
  have n11: "n1 \<le> 1"
    unfolding n1_def using n00 n01 by (auto intro!: f64_le f64_1)
  have o0: "0 \<le> f64 (n1 * 100)" using n10 by (intro f64_nonneg) simp
  have o1: "f64 (n1 * 100) \<le> 100" using n10 n11 by (intro f64_le f64_100) simp_all
  have "hi - lo \<noteq> 0" using lt by simp
  then have "a ! i = f64 (n1 * 100)"
    using n i by (auto simp: normalize_array_f64_def Let_def rep n1_def n0_def d_def c_def
        split: if_splits)
  then show ?thesis using o0 o1 by simp
qed

lemma normalize_array_f64_length:
  "normalize_array_f64 arr lo hi invert = Some a \<Longrightarrow> length a = length arr"
  by (auto simp: normalize_array_f64_def split: if_splits)

lemma factor_layer_f64_props:
  assumes f: "factor_layer_f64 L k = Some a" and grid: "common_grid L"
  shows "length a = length (ghi_data L) \<and> (\<forall>i < length a. 0 \<le> a ! i \<and> a ! i \<le> 100)"
proof -
  have len: "length a = length (ghi_data L)"
    using f grid
    by (auto simp: factor_layer_f64_def common_grid_def split: if_splits
        dest: normalize_array_f64_length)
  have rng: "\<forall>i < length a. 0 \<le> a ! i \<and> a ! i \<le> 100"
  proof (intro allI impI)
    fix i assume i: "i < length a"
    show "0 \<le> a ! i \<and> a ! i \<le> 100"
      using f i
      by (auto simp: factor_layer_f64_def f64_10 f64_1500 f64_5000 f64_10000 split: if_splits
          dest!: normalize_array_f64_range [rotated 2])
  qed
  show ?thesis using len rng by simp
qed

lemma normalized_layers_f64_Inr:
  "normalized_layers_f64 L ws = Inr (job_layers_f64 L ws)"
  by (auto simp: normalized_layers_f64_def put_normalized_f64_def bind_err_def
        job_layers_f64_def factor_layer_f64_def normalize_array_f64_def fun_eq_iff
        f64_10 f64_1500 f64_5000 f64_10000)

lemma job_layers_f64_dom: "dom (job_layers_f64 L ws) \<subseteq> recognized_factors"
  by (auto simp: job_layers_f64_def factor_layer_f64_def recognized_factors_def dom_def
      split: if_splits)

lemma q64_ge: "1 \<le> q64" and r32_ge: "1 \<le> r32"
  by (simp_all add: q64_def r32_def)

lemma overlay_step_f32:
  assumes s: "0 \<le> s" and a: "0 \<le> a" "a \<le> 100" and w: "0 \<le> w"
  shows "0 \<le> f32 (f64 (s + f64 (a * f64 (w / 100)))) \<and>
         f32 (f64 (s + f64 (a * f64 (w / 100)))) \<le> (s + q64 * w) * r32"
proof -
  define u where "u = (1 + 1 / 9007199254740992 :: real)"
  define v where "v = (1 + 1 / 16777216 :: real)"
  define t1 where "t1 = f64 (w / 100)"
  define t2 where "t2 = f64 (a * t1)"
  define t3 where "t3 = f64 (s + t2)"
  have u1: "1 \<le> u" and v1: "1 \<le> v" by (simp_all add: u_def v_def)
  have t10: "0 \<le> t1" unfolding t1_def using w by (intro f64_nonneg) simp
  have t11: "t1 \<le> w / 100 * u" unfolding t1_def u_def using w by (intro f64_up) simp
  have at0: "0 \<le> a * t1" using a t10 by simp
  have "a * t1 \<le> 100 * t1" using a t10 by (intro mult_right_mono) simp_all
  also have "\<dots> \<le> 100 * (w / 100 * u)" using t11 by simp
  finally have at1: "a * t1 \<le> w * u" by simp
  have t20: "0 \<le> t2" unfolding t2_def using at0 by (rule f64_nonneg)
  have "t2 \<le> a * t1 * u" unfolding t2_def u_def using at0 by (rule f64_up)
  also have "\<dots> \<le> w * u * u" using at1 u1 by (intro mult_right_mono) simp_all
  finally have t21: "t2 \<le> q64 * w" by (simp add: q64_def u_def power2_eq_square mult_ac)
  have st0: "0 \<le> s + t2" using s t20 by simp
  have t30: "0 \<le> t3" unfolding t3_def using st0 by (rule f64_nonneg)
  have "t3 \<le> (s + t2) * u" unfolding t3_def u_def using st0 by (rule f64_up)
  also have "\<dots> \<le> (s + q64 * w) * u" using t21 u1 by (intro mult_right_mono) simp_all
  finally have t31: "t3 \<le> (s + q64 * w) * u" .
  have r0: "0 \<le> f32 t3" using t30 by (rule f32_nonneg)
  have "f32 t3 \<le> t3 * v" unfolding v_def using t30 by (rule f32_up)
  also have "\<dots> \<le> (s + q64 * w) * u * v" using t31 v1 by (intro mult_right_mono) simp_all
  finally have r1: "f32 t3 \<le> (s + q64 * w) * r32" by (simp add: r32_def u_def v_def mult_ac)
  show ?thesis using r0 r1 by (simp add: t3_def t2_def t1_def)
qed

lemma weighted_overlay_f32_bound:
  assumes nl: "\<forall>a \<in> ran nl. length a = length acc \<and> (\<forall>i < length a. 0 \<le> a ! i \<and> a ! i \<le> 100)"
    and w: "\<forall>p \<in> set ws. 0 \<le> snd p"
    and acc: "\<forall>i < length acc. 0 \<le> acc ! i"
  shows "\<exists>res. weighted_overlay_f32 nl ws acc = Inr res \<and> length res = length acc \<and>
           (\<forall>i < length acc. 0 \<le> res ! i \<and>
              res ! i \<le> (acc ! i + q64 * recognized_weight nl ws) * r32 ^ recognized_count nl ws)"
  using nl w acc
proof (induction ws arbitrary: acc)
  case Nil
  then show ?case by (simp add: recognized_weight_def recognized_count_def)
next
  case (Cons p ws)
  obtain k wt where p: "p = (k, wt)" by (cases p)
  have wt: "0 \<le> wt" and wrest: "\<forall>p \<in> set ws. 0 \<le> snd p" using Cons.prems(2) p by simp_all
  show ?case
  proof (cases "nl k")
    case None
    from Cons.IH [OF Cons.prems(1) wrest Cons.prems(3)] obtain res where
      "weighted_overlay_f32 nl ws acc = Inr res" "length res = length acc"
      "\<forall>i < length acc. 0 \<le> res ! i \<and>
         res ! i \<le> (acc ! i + q64 * recognized_weight nl ws) * r32 ^ recognized_count nl ws"
      by blast
    then show ?thesis using None p
      by (simp add: recognized_weight_def recognized_count_def)
  next
    case (Some a)
    then have ar: "a \<in> ran nl" by (auto simp: ran_def)
    have la: "length a = length acc" and rng: "\<forall>i < length a. 0 \<le> a ! i \<and> a ! i \<le> 100"
      using Cons.prems(1) ar by auto
    define acc' where
      "acc' = map2 (\<lambda>s x. f32 (f64 (s + f64 (x * f64 (wt / 100))))) acc a"
    have l': "length acc' = length acc" using la by (simp add: acc'_def)
    have step: "\<forall>i < length acc. 0 \<le> acc' ! i \<and> acc' ! i \<le> (acc ! i + q64 * wt) * r32"
    proof (intro allI impI)
      fix i assume i: "i < length acc"
      have "acc' ! i = f32 (f64 (acc ! i + f64 (a ! i * f64 (wt / 100))))"
        using i la by (simp add: acc'_def)
      moreover have "0 \<le> acc ! i" using Cons.prems(3) i by simp
      moreover have "0 \<le> a ! i" "a ! i \<le> 100" using rng i la by simp_all
      ultimately show "0 \<le> acc' ! i \<and> acc' ! i \<le> (acc ! i + q64 * wt) * r32"
        using overlay_step_f32 [of "acc ! i" "a ! i" wt] wt by simp
    qed
    have nl': "\<forall>a \<in> ran nl. length a = length acc' \<and> (\<forall>i < length a. 0 \<le> a ! i \<and> a ! i \<le> 100)"
      using Cons.prems(1) l' by simp
    have acc0: "\<forall>i < length acc'. 0 \<le> acc' ! i" using step l' by simp
    from Cons.IH [OF nl' wrest acc0] obtain res where
      r: "weighted_overlay_f32 nl ws acc' = Inr res" and lr: "length res = length acc'"
      and b: "\<forall>i < length acc'. 0 \<le> res ! i \<and>
         res ! i \<le> (acc' ! i + q64 * recognized_weight nl ws) * r32 ^ recognized_count nl ws"
      by blast
    have ov: "weighted_overlay_f32 nl (p # ws) acc = Inr res"
      using Some p la r by (simp add: acc'_def)
    have W: "recognized_weight nl (p # ws) = wt + recognized_weight nl ws"
      and N: "recognized_count nl (p # ws) = Suc (recognized_count nl ws)"
      using Some p by (simp_all add: recognized_weight_def recognized_count_def)
    have W0: "0 \<le> recognized_weight nl ws"
      using wrest by (auto simp: recognized_weight_def intro!: sum_list_nonneg)
    have bound: "\<forall>i < length acc. 0 \<le> res ! i \<and>
              res ! i \<le> (acc ! i + q64 * recognized_weight nl (p # ws)) * r32 ^ recognized_count nl (p # ws)"
    proof (intro allI impI)
      fix i assume i: "i < length acc"
      define M where "M = r32 ^ recognized_count nl ws"
      define B where "B = q64 * recognized_weight nl ws"
      have M0: "0 \<le> M" using r32_ge by (simp add: M_def)
      have B0: "0 \<le> B" using W0 q64_ge by (simp add: B_def)
      from b i l' have r0: "0 \<le> res ! i" and r1: "res ! i \<le> (acc' ! i + B) * M"
        by (simp_all add: M_def B_def)
      from step i have s1: "acc' ! i \<le> (acc ! i + q64 * wt) * r32" by simp
      have "B \<le> B * r32" using B0 r32_ge by (simp add: mult_le_cancel_left1)
      then have "acc' ! i + B \<le> (acc ! i + q64 * wt + B) * r32"
        using s1 by (simp add: distrib_right)
      then have "(acc' ! i + B) * M \<le> (acc ! i + q64 * wt + B) * r32 * M"
        using M0 by (intro mult_right_mono) simp_all
      then have "res ! i \<le> (acc ! i + q64 * wt + B) * r32 * M" using r1 by linarith
      then have "res ! i \<le> (acc ! i + q64 * (wt + recognized_weight nl ws)) * (r32 * M)"
        by (simp add: B_def distrib_left mult_ac)
      then show "0 \<le> res ! i \<and>
              res ! i \<le> (acc ! i + q64 * recognized_weight nl (p # ws)) * r32 ^ recognized_count nl (p # ws)"
        using r0 by (simp add: W N M_def)
    qed
    show ?thesis using ov lr l' bound by (intro exI [of _ res]) simp
  qed
qed

lemma recognized_count_le:
  assumes d: "distinct (map fst ws)" and S: "dom nl \<subseteq> S" and f: "finite S"
  shows "recognized_count nl ws \<le> card S"
proof -
  let ?P = "\<lambda>p. nl (fst p) \<noteq> None"
  have "distinct (map fst (filter ?P ws))" using d by (rule distinct_map_filter)
  then have "card (set (map fst (filter ?P ws))) = length (map fst (filter ?P ws))"
    by (rule distinct_card)
  moreover have "set (map fst (filter ?P ws)) \<subseteq> S" using S by (auto simp: dom_def)
  then have "card (set (map fst (filter ?P ws))) \<le> card S" using f by (intro card_mono)
  ultimately show ?thesis by (simp add: recognized_count_def)
qed

lemma recognized_weight_le:
  assumes "\<forall>p \<in> set ws. 0 \<le> snd p"
  shows "0 \<le> recognized_weight nl ws \<and> recognized_weight nl ws \<le> sum_list (map snd ws)"
  using assms by (induction ws) (auto simp: recognized_weight_def)

lemma card_recognized: "card recognized_factors = 4"
  by (simp add: recognized_factors_def)

lemma rounding_budget: "q64 * 100 * r32 ^ 4 \<le> 100 + 1 / 10000"
  by (simp add: q64_def r32_def power_divide)

lemma final_map_f32_Inr:
  assumes grid: "common_grid L"
    and nonneg: "\<forall>p \<in> set (weights_json job). 0 \<le> snd p"
  shows "\<exists>fm. final_map_f32 L job = Inr fm \<and> length fm = length (ghi_data L) \<and>
           (\<forall>i < length (ghi_data L).
              fm ! i = nodata_val \<and> excluded_at L (constraints_json job) i \<or>
              \<not> excluded_at L (constraints_json job) i \<and> 0 \<le> fm ! i \<and>
              fm ! i \<le> q64 * recognized_weight (job_layers_f64 L (weights_json job)) (weights_json job)
                        * r32 ^ recognized_count (job_layers_f64 L (weights_json job)) (weights_json job))"
proof -
  let ?n = "length (ghi_data L)"
  let ?ws = "weights_json job"
  let ?nl = "job_layers_f64 L ?ws"
  let ?ex = "excluded_at L (constraints_json job)"
  have nl: "\<forall>a \<in> ran ?nl. length a = length (replicate ?n (0::real)) \<and>
              (\<forall>i < length a. 0 \<le> a ! i \<and> a ! i \<le> 100)"
  proof
    fix a assume "a \<in> ran ?nl"
    then obtain k where "?nl k = Some a" by (auto simp: ran_def)
    then have "factor_layer_f64 L k = Some a" by (simp add: job_layers_f64_def split: if_splits)
    from factor_layer_f64_props [OF this grid]
    show "length a = length (replicate ?n (0::real)) \<and>
            (\<forall>i < length a. 0 \<le> a ! i \<and> a ! i \<le> 100)"
      by simp
  qed
  have acc: "\<forall>i < length (replicate ?n (0::real)). 0 \<le> replicate ?n (0::real) ! i" by simp
  from weighted_overlay_f32_bound [OF nl nonneg acc] obtain res where
    ov: "weighted_overlay_f32 ?nl ?ws (replicate ?n 0) = Inr res"
    and lr: "length res = ?n"
    and b: "\<forall>i < ?n. 0 \<le> res ! i \<and>
              res ! i \<le> (0 + q64 * recognized_weight ?nl ?ws) * r32 ^ recognized_count ?nl ?ws"
    by auto
  let ?fm = "apply_constraints res (map ?ex [0..<?n])"
  have fm: "final_map_f32 L job = Inr ?fm"
    by (simp add: final_map_f32_def constraint_mask_Inr [OF grid] normalized_layers_f64_Inr ov
        bind_err_def)
  have len: "length ?fm = ?n" using lr by (simp add: apply_constraints_def)
  have px: "\<forall>i < ?n.
              ?fm ! i = nodata_val \<and> ?ex i \<or>
              \<not> ?ex i \<and> 0 \<le> ?fm ! i \<and>
              ?fm ! i \<le> q64 * recognized_weight ?nl ?ws * r32 ^ recognized_count ?nl ?ws"
    using b lr by (auto simp: apply_constraints_def)
  show ?thesis using fm len px by (intro exI [of _ ?fm]) simp
qed

text \<open>
  C6, as the code has it. For a job whose weights (a dict, so with distinct names) are
  non-negative and sum to 100, on layers that share the grid, the array the engine writes
  holds the sentinel at every pixel the exclusion mask sets, and at every other pixel a
  score in \<open>[0, 100]\<close> up to the rounding of the float64 products and the float32
  accumulator: \<open>0 \<le> score \<le> 100.0001\<close>.
\<close>

theorem score_in_range_f32:
  assumes grid: "common_grid L"
    and keys: "distinct (map fst (weights_json job))"
    and nonneg: "\<forall>p \<in> set (weights_json job). 0 \<le> snd p"
    and total: "sum_list (map snd (weights_json job)) = 100"
  shows "\<exists>fm m.
           final_map_f32 L job = Inr fm \<and>
           constraint_mask L (constraints_json job) = Inr m \<and>
           length fm = length (ghi_data L) \<and>
           length m = length (ghi_data L) \<and>
           (\<forall>i < length (ghi_data L).
              (m ! i \<longrightarrow> fm ! i = - 9999) \<and>
              (\<not> m ! i \<longrightarrow> 0 \<le> fm ! i \<and> fm ! i \<le> 100 + 1 / 10000))"
proof -
  let ?n = "length (ghi_data L)"
  let ?ws = "weights_json job"
  let ?nl = "job_layers_f64 L ?ws"
  let ?ex = "excluded_at L (constraints_json job)"
  let ?m = "map ?ex [0..<?n]"
  from final_map_f32_Inr [OF grid nonneg] obtain fm where
    fm: "final_map_f32 L job = Inr fm" and len: "length fm = ?n"
    and px: "\<forall>i < ?n.
              fm ! i = nodata_val \<and> ?ex i \<or>
              \<not> ?ex i \<and> 0 \<le> fm ! i \<and>
              fm ! i \<le> q64 * recognized_weight ?nl ?ws * r32 ^ recognized_count ?nl ?ws"
    by blast
  have m: "constraint_mask L (constraints_json job) = Inr ?m"
    by (rule constraint_mask_Inr [OF grid])
  have N: "recognized_count ?nl ?ws \<le> 4"
    using recognized_count_le [OF keys job_layers_f64_dom, of L ?ws] card_recognized
    by (simp add: recognized_factors_def)
  have W: "0 \<le> recognized_weight ?nl ?ws" "recognized_weight ?nl ?ws \<le> 100"
    using recognized_weight_le [OF nonneg, of ?nl] total by simp_all
  have "r32 ^ recognized_count ?nl ?ws \<le> r32 ^ 4"
    using N r32_ge by (intro power_increasing) simp_all
  moreover have "0 \<le> q64 * recognized_weight ?nl ?ws" using W q64_ge by simp
  ultimately have "q64 * recognized_weight ?nl ?ws * r32 ^ recognized_count ?nl ?ws
        \<le> q64 * recognized_weight ?nl ?ws * r32 ^ 4"
    by (intro mult_left_mono) simp_all
  also have "\<dots> \<le> q64 * 100 * r32 ^ 4"
  proof -
    have "q64 * recognized_weight ?nl ?ws \<le> q64 * 100"
      using W q64_ge by (intro mult_left_mono) simp_all
    moreover have "0 \<le> r32 ^ 4" using r32_ge by simp
    ultimately show ?thesis by (intro mult_right_mono) simp_all
  qed
  also have "\<dots> \<le> 100 + 1 / 10000" by (rule rounding_budget)
  finally have top: "q64 * recognized_weight ?nl ?ws * r32 ^ recognized_count ?nl ?ws
        \<le> 100 + 1 / 10000" .
  have all: "\<forall>i < ?n.
              (?m ! i \<longrightarrow> fm ! i = - 9999) \<and>
              (\<not> ?m ! i \<longrightarrow> 0 \<le> fm ! i \<and> fm ! i \<le> 100 + 1 / 10000)"
  proof (intro allI impI)
    fix i assume i: "i < ?n"
    from px i have "fm ! i = nodata_val \<and> ?ex i \<or>
              \<not> ?ex i \<and> 0 \<le> fm ! i \<and>
              fm ! i \<le> q64 * recognized_weight ?nl ?ws * r32 ^ recognized_count ?nl ?ws"
      by simp
    then show "(?m ! i \<longrightarrow> fm ! i = - 9999) \<and>
              (\<not> ?m ! i \<longrightarrow> 0 \<le> fm ! i \<and> fm ! i \<le> 100 + 1 / 10000)"
      using i top by (auto simp: nodata_val_def)
  qed
  show ?thesis using fm m len all by (intro exI [of _ fm] exI [of _ ?m]) simp
qed

text \<open>
  The job with weights 33.4, 33.3 and 33.300000000000004 meets the hypotheses of C6; its
  one pixel scores 100.00000762939453.
\<close>

theorem score_in_range_f32_witness:
  "common_grid best_layers \<and>
   distinct (map fst (weights_json thirds_job)) \<and>
   list_all (\<lambda>p. 0 \<le> snd p) (weights_json thirds_job) \<and>
   sum_list (map snd (weights_json thirds_job)) = 100 \<and>
   constraint_mask best_layers (constraints_json thirds_job) = Inr [False] \<and>
   (\<exists>fm. final_map_f32 best_layers thirds_job = Inr fm \<and>
      0 \<le> fm ! 0 \<and> fm ! 0 \<le> 100 + 1 / 10000 \<and> fm = [13107201 / 131072])"
proof -
  have grid: "common_grid best_layers"
    by (simp add: common_grid_def best_layers_def)
  have keys: "distinct (map fst (weights_json thirds_job))"
    by (simp add: thirds_job_def)
  have nonneg: "\<forall>p \<in> set (weights_json thirds_job). 0 \<le> snd p"
    by (simp add: thirds_job_def)
  have total: "sum_list (map snd (weights_json thirds_job)) = 100"
    by (simp add: thirds_job_def)
  have m: "constraint_mask best_layers (constraints_json thirds_job) = Inr [False]"
    by (simp add: thirds_job_def best_layers_def constraint_mask_def bind_err_def)
  have l: "length (ghi_data best_layers) = 1" by (simp add: best_layers_def)
  from score_in_range_f32 [OF grid keys nonneg total] obtain fm m' where
    fm: "final_map_f32 best_layers thirds_job = Inr fm"
    and m': "constraint_mask best_layers (constraints_json thirds_job) = Inr m'"
    and px: "\<forall>i < length (ghi_data best_layers).
              (m' ! i \<longrightarrow> fm ! i = - 9999) \<and>
              (\<not> m' ! i \<longrightarrow> 0 \<le> fm ! i \<and> fm ! i \<le> 100 + 1 / 10000)"
    by blast
  from m m' have mm: "m' = [False]" by simp
  from px [rule_format, of 0] l mm have r: "0 \<le> fm ! 0 \<and> fm ! 0 \<le> 100 + 1 / 10000" by simp
  have v: "fm = [13107201 / 131072]"
    using fm thirds_final_map by simp
  show ?thesis using grid keys nonneg total m fm r v by (simp add: list_all_iff)
qed

section \<open>The worker task\<close>

lemma run_mcda_analysis_trace:
  "db jid = Some job \<Longrightarrow>
   status_trace (fst (run_mcda_analysis e db jid)) jid =
     [Some RUNNING,
      Some (case process_mcda_job e (job\<lparr>status := RUNNING\<rparr>) of
              Inl err \<Rightarrow> FAILED | Inr res \<Rightarrow> COMPLETE)]"
  by (simp add: run_mcda_analysis_def status_trace_def Let_def split: sum.splits)

text \<open>
  C3, as the code has it. A delivery for an id that has no record commits nothing. A
  delivery for an id that has a record, whatever its status, first commits that row with
  status RUNNING and then runs the engine on it: if the engine returns, the second commit
  holds the row with status COMPLETE and the engine's result, and the task returns; if the
  engine raises, the second commit holds the row with status FAILED and the error, and the
  task raises it. No other row changes.
\<close>

theorem run_mcda_analysis_unconditional:
  "(db jid = None \<longrightarrow> run_mcda_analysis e db jid = ([], Returned)) \<and>
   (\<forall>job. db jid = Some job \<longrightarrow>
      (\<exists>t1 t2 out.
         run_mcda_analysis e db jid = ([t1, t2], out) \<and>
         t1 = db(jid \<mapsto> job\<lparr>status := RUNNING\<rparr>) \<and>
         map_option status (t1 jid) = Some RUNNING \<and>
         (\<forall>res. process_mcda_job e (job\<lparr>status := RUNNING\<rparr>) = Inr res \<longrightarrow>
            out = Returned \<and>
            map_option status (t2 jid) = Some COMPLETE \<and>
            t2 = db(jid \<mapsto> job\<lparr>status := COMPLETE,
                                  result_url := Some (geotiff_url res),
                                  result_tiles_url := tiles_url res,
                                  stats_json := Some (statistics res)\<rparr>)) \<and>
         (\<forall>err. process_mcda_job e (job\<lparr>status := RUNNING\<rparr>) = Inl err \<longrightarrow>
            out = Raised err \<and>
            map_option status (t2 jid) = Some FAILED \<and>
            t2 = db(jid \<mapsto> job\<lparr>status := FAILED, error_log := Some err\<rparr>)) \<and>
         (map_option status (t2 jid) = Some COMPLETE \<and> out = Returned \<or>
          map_option status (t2 jid) = Some FAILED \<and> (\<exists>err. out = Raised err)) \<and>
         (\<forall>k. k \<noteq> jid \<longrightarrow> t1 k = db k \<and> t2 k = db k)))"
  by (auto simp: run_mcda_analysis_def Let_def split: sum.splits)

text \<open>
  The cases of C3 on the table that holds the completed sample job: an id without a
  record, the delivery with the sample layers in the store (the engine returns), and
  the delivery with no AOI in the store (the engine raises).
\<close>

theorem run_mcda_analysis_unconditional_witness:
  "finished_table 7 = Some (sample_job\<lparr>status := COMPLETE\<rparr>) \<and>
   finished_table 8 = None \<and>
   run_mcda_analysis sample_env finished_table 8 = ([], Returned) \<and>
   (\<exists>res. process_mcda_job sample_env (sample_job\<lparr>status := RUNNING\<rparr>) = Inr res) \<and>
   status_trace (fst (run_mcda_analysis sample_env finished_table 7)) 7
     = [Some RUNNING, Some COMPLETE] \<and>
   snd (run_mcda_analysis sample_env finished_table 7) = Returned \<and>
   process_mcda_job empty_env (sample_job\<lparr>status := RUNNING\<rparr>) = Inl (AoiNotFound 3) \<and>
   status_trace (fst (run_mcda_analysis empty_env finished_table 7)) 7
     = [Some RUNNING, Some FAILED] \<and>
   snd (run_mcda_analysis empty_env finished_table 7) = Raised (AoiNotFound 3)"
proof -
  let ?job = "sample_job\<lparr>status := COMPLETE\<rparr>"
  have j: "finished_table 7 = Some ?job"
    by (simp add: finished_table_def)
  have n: "finished_table 8 = None"
    by (simp add: finished_table_def)
  have run: "?job\<lparr>status := RUNNING\<rparr> = sample_job\<lparr>status := RUNNING\<rparr>" by simp
  have aoi: "aoi_layers sample_env (aoi_id (sample_job\<lparr>status := RUNNING\<rparr>)) = Some sample_layers"
    by (simp add: sample_defs)
  have grid: "common_grid sample_layers"
    by (simp add: common_grid_def sample_defs)
  from process_mcda_job_Inr [OF aoi grid] obtain res where
    ok: "process_mcda_job sample_env (sample_job\<lparr>status := RUNNING\<rparr>) = Inr res" by blast
  have bad: "process_mcda_job empty_env (sample_job\<lparr>status := RUNNING\<rparr>) = Inl (AoiNotFound 3)"
    by (simp add: process_mcda_job_def empty_env_def sample_job_def)
  note a = run_mcda_analysis_unconditional [of finished_table 8 sample_env, THEN conjunct1,
      THEN mp, OF n]
  note b = run_mcda_analysis_unconditional [of finished_table 7 sample_env, THEN conjunct2,
      THEN spec, THEN mp, OF j]
  note c = run_mcda_analysis_unconditional [of finished_table 7 empty_env, THEN conjunct2,
      THEN spec, THEN mp, OF j]
  from b obtain t1 t2 out where
    r: "run_mcda_analysis sample_env finished_table 7 = ([t1, t2], out)"
    and s1: "map_option status (t1 7) = Some RUNNING"
    and s2: "\<forall>res. process_mcda_job sample_env (?job\<lparr>status := RUNNING\<rparr>) = Inr res \<longrightarrow>
            out = Returned \<and> map_option status (t2 7) = Some COMPLETE \<and>
            t2 = finished_table(7 \<mapsto> ?job\<lparr>status := COMPLETE,
                                  result_url := Some (geotiff_url res),
                                  result_tiles_url := tiles_url res,
                                  stats_json := Some (statistics res)\<rparr>)"
    by (elim exE conjE) (rule that, assumption+)
  from s2 [rule_format, of res] ok run
  have o: "out = Returned" and s2': "map_option status (t2 7) = Some COMPLETE" by simp_all
  have good: "status_trace (fst (run_mcda_analysis sample_env finished_table 7)) 7
               = [Some RUNNING, Some COMPLETE] \<and>
             snd (run_mcda_analysis sample_env finished_table 7) = Returned"
    using r s1 s2' o by (simp add: status_trace_def)
  from c obtain u1 u2 out' where
    r': "run_mcda_analysis empty_env finished_table 7 = ([u1, u2], out')"
    and f1: "map_option status (u1 7) = Some RUNNING"
    and f2: "\<forall>err. process_mcda_job empty_env (?job\<lparr>status := RUNNING\<rparr>) = Inl err \<longrightarrow>
            out' = Raised err \<and> map_option status (u2 7) = Some FAILED \<and>
            u2 = finished_table(7 \<mapsto> ?job\<lparr>status := FAILED, error_log := Some err\<rparr>)"
    by (elim exE conjE) (rule that, assumption+)
  from f2 [rule_format, of "AoiNotFound 3"] bad run
  have o': "out' = Raised (AoiNotFound 3)" and f2': "map_option status (u2 7) = Some FAILED"
    by simp_all
  have fail: "status_trace (fst (run_mcda_analysis empty_env finished_table 7)) 7
               = [Some RUNNING, Some FAILED] \<and>
             snd (run_mcda_analysis empty_env finished_table 7) = Raised (AoiNotFound 3)"
    using r' f1 f2' o' by (simp add: status_trace_def)
  show ?thesis using j n a ok good bad fail by blast
qed

text \<open>
  C3 as stated fails: a delivery that finds the job COMPLETE commits RUNNING for it.
\<close>

theorem complete_job_set_running_again:
  "map_option status (finished_table 7) = Some COMPLETE \<and>
   status_trace (fst (run_mcda_analysis sample_env finished_table 7)) 7
     = [Some RUNNING, Some COMPLETE]"
proof -
  have j: "finished_table 7 = Some (sample_job\<lparr>status := COMPLETE\<rparr>)"
    by (simp add: finished_table_def)
  have aoi: "aoi_layers sample_env (aoi_id (sample_job\<lparr>status := RUNNING\<rparr>)) = Some sample_layers"
    by (simp add: sample_defs)
  have grid: "common_grid sample_layers"
    by (simp add: common_grid_def sample_defs)
  from process_mcda_job_Inr [OF aoi grid] obtain res where
    "process_mcda_job sample_env (sample_job\<lparr>status := RUNNING\<rparr>) = Inr res" by blast
  then show ?thesis using run_mcda_analysis_trace [where db = finished_table and jid = 7 and e = sample_env, OF j] j
    by simp
qed

section \<open>Admission\<close>

lemma py_sum_finite:
  "foldl py_add (Finite a) (map snd (finite_dict ws)) = Finite (a + sum_list (map snd ws))"
  by (induction ws arbitrary: a) (auto simp: finite_dict_def)

lemma py_sum_finite_dict: "py_sum (map snd (finite_dict ws)) = Finite (sum_list (map snd ws))"
  by (simp add: py_sum_def py_sum_finite)

lemma keys_finite_dict: "map fst (finite_dict ws) = map fst ws"
  by (induction ws) (auto simp: finite_dict_def)

text \<open>
  For finite weights the admission check is the one the schema documents: with the
  primary-key sequence ahead of the table, a PENDING job record is created and queued
  when the weights sum to 100 within 0.01, and otherwise the validation error is raised
  and the store is left as it was.
\<close>

lemma admission_finite_weights:
  assumes fresh: "next_job_id st \<notin> dom (analysis_jobs st)"
    and fin: "weights_json data = finite_dict ws"
  shows "(\<bar>sum_list (map snd ws) - 100\<bar> \<le> 1 / 100 \<longrightarrow>
            (\<exists>job st'. create_and_queue_job st pid aid data = (Inr job, st') \<and>
               status job = PENDING \<and>
               job_id job = next_job_id st \<and>
               project_id job = pid \<and> aoi_id job = aid \<and>
               weights_json job = weights_json data \<and>
               constraints_json job = constraints_json data \<and>
               analysis_jobs st' = (analysis_jobs st)(next_job_id st \<mapsto> job) \<and>
               dom (analysis_jobs st') = insert (next_job_id st) (dom (analysis_jobs st)) \<and>
               analysis_jobs st' \<noteq> analysis_jobs st \<and>
               queue st' = queue st @ [next_job_id st])) \<and>
         (\<not> \<bar>sum_list (map snd ws) - 100\<bar> \<le> 1 / 100 \<longrightarrow>
            create_and_queue_job st pid aid data =
              (Inl (WeightsSum (Finite (sum_list (map snd ws)))), st))"
proof (intro conjI impI)
  assume ok: "\<bar>sum_list (map snd ws) - 100\<bar> \<le> 1 / 100"
  let ?job = "\<lparr> weights_json = weights_json data,
                 constraints_json = constraints_json data,
                 job_id = next_job_id st, project_id = pid, aoi_id = aid, status = PENDING,
                 result_url = None, result_tiles_url = None, error_log = None,
                 stats_json = None \<rparr>"
  let ?st = "st\<lparr> analysis_jobs := (analysis_jobs st)(next_job_id st \<mapsto> ?job),
                next_job_id := next_job_id st + 1,
                queue := queue st @ [next_job_id st] \<rparr>"
  have c: "create_and_queue_job st pid aid data = (Inr ?job, ?st)"
    using ok by (simp add: create_and_queue_job_def Let_def fin py_sum_finite_dict)
  have ne: "(analysis_jobs st)(next_job_id st \<mapsto> ?job) \<noteq> analysis_jobs st"
  proof
    assume "(analysis_jobs st)(next_job_id st \<mapsto> ?job) = analysis_jobs st"
    then have "analysis_jobs st (next_job_id st) = Some ?job" by (metis fun_upd_same)
    with fresh show False by (auto simp: dom_def)
  qed
  show "\<exists>job st'. create_and_queue_job st pid aid data = (Inr job, st') \<and>
               status job = PENDING \<and>
               job_id job = next_job_id st \<and>
               project_id job = pid \<and> aoi_id job = aid \<and>
               weights_json job = weights_json data \<and>
               constraints_json job = constraints_json data \<and>
               analysis_jobs st' = (analysis_jobs st)(next_job_id st \<mapsto> job) \<and>
               dom (analysis_jobs st') = insert (next_job_id st) (dom (analysis_jobs st)) \<and>
               analysis_jobs st' \<noteq> analysis_jobs st \<and>
               queue st' = queue st @ [next_job_id st]"
    using c ne by (intro exI [of _ ?job] exI [of _ ?st]) simp
next
  assume "\<not> \<bar>sum_list (map snd ws) - 100\<bar> \<le> 1 / 100"
  then show "create_and_queue_job st pid aid data =
              (Inl (WeightsSum (Finite (sum_list (map snd ws)))), st)"
    by (simp add: create_and_queue_job_def Let_def fin py_sum_finite_dict)
qed

text \<open>
  C4 at a concrete input: the request whose single weight is NaN. The sum is NaN, the
  comparison \<^verbatim>\<open>abs(total_weight - 100) > 0.01\<close> is false, and the job record is created
  with status PENDING and queued, although the weights do not sum to 100 within 0.01.
\<close>

theorem nan_weight_admitted:
  "weights_json nan_request = [(''ghi'', NaN)] \<and>
   py_sum (map snd (weights_json nan_request)) = NaN \<and>
   map_sum id status (fst (create_and_queue_job sample_store 1 3 nan_request)) = Inr PENDING \<and>
   map_option status (analysis_jobs (snd (create_and_queue_job sample_store 1 3 nan_request)) 1)
     = Some PENDING \<and>
   queue (snd (create_and_queue_job sample_store 1 3 nan_request)) = [1]"
  by (simp add: nan_request_def py_sum_def create_and_queue_job_def sample_store_def Let_def)




end
